theory Spec2Isabelle
  imports Complex_Main "HOL-Library.Word" "HOL-Library.List_Lexorder"
begin

text \<open>
  A model of the two request handlers of the document question-answering assistant: the
  engine that retrieves, filters and numbers search results before a completion is asked
  for (\<^verbatim>\<open>QAEngine\<close> with \<^verbatim>\<open>buildContext\<close>), and the route that builds the graph
  of pages around a seed page (\<^verbatim>\<open>GET\<close> of \<^verbatim>\<open>api/graph/route.ts\<close>). Asynchronous calls
  are modelled by their results, in program order: a rejected promise is the left summand
  of a sum, and every handler returns, next to its result, the list of remote calls it
  made.
\<close>

section \<open>JavaScript values\<close>

text \<open>
  A JavaScript string is a sequence of UTF-16 code units. The relational operator
  \<^verbatim>\<open><\<close> on two strings compares them code unit by code unit, a proper prefix
  being the smaller one: that is the lexicographic order on lists of 16-bit words.
\<close>

type_synonym jschar = "16 word"
type_synonym jsstring = "jschar list"

text \<open>A string literal of the source, written with the characters of the theory text.\<close>

definition js_str :: "string \<Rightarrow> jsstring" where
  "js_str s = map (\<lambda>c. of_nat (of_char c)) s"

text \<open>
  \<^verbatim>\<open>String.prototype.trim\<close> removes white space and line terminators from both ends:
  TAB, LF, VT, FF, CR, SP, NBSP, U+1680, U+2000 to U+200A, U+2028, U+2029, U+202F,
  U+205F, U+3000 and U+FEFF. All of them are single code units.
\<close>

definition isWhiteSpace :: "jschar \<Rightarrow> bool" where
  "isWhiteSpace c \<longleftrightarrow>
     c = 0x9 \<or> c = 0xA \<or> c = 0xB \<or> c = 0xC \<or> c = 0xD \<or> c = 0x20 \<or> c = 0xA0 \<or>
     c = 0x1680 \<or> (0x2000 \<le> c \<and> c \<le> 0x200A) \<or> c = 0x2028 \<or> c = 0x2029 \<or>
     c = 0x202F \<or> c = 0x205F \<or> c = 0x3000 \<or> c = 0xFEFF"

definition trim :: "jsstring \<Rightarrow> jsstring" where
  "trim s = rev (dropWhile isWhiteSpace (rev (dropWhile isWhiteSpace s)))"

text \<open>
  Numbers are IEEE doubles in the source. The model takes the finite ones as reals, so
  that sums and comparisons are exact, and keeps the three values that
  \<^verbatim>\<open>Number.isFinite\<close> rejects where the source tests for them.
\<close>

datatype jsnumber = Finite real | NaN | PosInfinity | NegInfinity

fun isFinite :: "jsnumber \<Rightarrow> bool" where
  "isFinite (Finite x) = True"
| "isFinite n = False"

text \<open>\<^verbatim>\<open>x >= n\<close> for a finite \<open>x\<close>: every comparison with NaN is false.\<close>

fun ge_number :: "real \<Rightarrow> jsnumber \<Rightarrow> bool" where
  "ge_number x (Finite y) = (y \<le> x)"
| "ge_number x NaN = False"
| "ge_number x PosInfinity = False"
| "ge_number x NegInfinity = True"

text \<open>
  \<^verbatim>\<open>Number(x.toFixed(4))\<close>: \<^verbatim>\<open>toFixed\<close> works on the absolute value, takes the
  integer \<open>n\<close> with \<open>n / 10^4\<close> nearest to it (the larger one on a tie) and puts the
  sign back; from \<open>10^21\<close> on it prints the number as it is.
\<close>

definition toFixed4 :: "real \<Rightarrow> real" where
  "toFixed4 x =
     (if 10 ^ 21 \<le> \<bar>x\<bar> then x
      else if x < 0 then - (of_int \<lfloor>(- x) * 10 ^ 4 + 1 / 2\<rfloor> / 10 ^ 4)
      else of_int \<lfloor>x * 10 ^ 4 + 1 / 2\<rfloor> / 10 ^ 4)"

section \<open>The question-answering engine\<close>

subsection \<open>Data\<close>

text \<open>
  The declaration of \<^verbatim>\<open>SearchResult\<close> (module \<^verbatim>\<open>vectorstore\<close>) is not among the
  sources. The engine reads \<^verbatim>\<open>chunk.pageId ?? chunk.id\<close>, so for it the page id may be
  absent; the graph route uses \<^verbatim>\<open>chunk.pageId\<close> as a string and reads
  \<^verbatim>\<open>score ?? 0\<close>. The types of these two fields are therefore parameters of the
  record: \<open>'p\<close> for the page id and \<open>'s\<close> for the score.
\<close>

record 'p Chunk =
  c_id :: jsstring
  c_pageId :: 'p
  c_title :: jsstring
  c_heading :: "jsstring option"
  c_headingPath :: "jsstring option"
  c_spaceKey :: "jsstring option"
  c_sourceUrl :: "jsstring option"
  c_content :: jsstring

record ('p, 's) SearchResult =
  chunk :: "'p Chunk"
  score :: 's

type_synonym QAResult = "(jsstring option, real) SearchResult"

record AnswerReferences =
  r_index :: nat
  r_title :: jsstring
  r_url :: "jsstring option"
  r_score :: "real option"
  r_pageId :: "jsstring option"

record RetrievalTraceEntry =
  e_index :: nat
  e_id :: jsstring
  e_score :: real
  e_title :: jsstring
  e_heading :: "jsstring option"
  e_headingPath :: "jsstring option"
  e_spaceKey :: "jsstring option"
  e_included :: bool

record RetrievalTrace =
  t_threshold :: real
  t_fallbackApplied :: bool
  t_fallbackThreshold :: "jsnumber option"
  t_results :: "RetrievalTraceEntry list"

subsection \<open>Filtering the raw results (\<^verbatim>\<open>QAEngine.prepare\<close>, lines 151 to 167)\<close>

definition fallbackThresholdValid :: "jsnumber \<Rightarrow> bool" where
  "fallbackThresholdValid fb \<longleftrightarrow>
     isFinite fb \<and> (case fb of Finite f \<Rightarrow> 0 < f \<and> f < 1 | _ \<Rightarrow> False)"

text \<open>
  The pair of \<^verbatim>\<open>relevantResults\<close> and \<^verbatim>\<open>fallbackApplied\<close> after line 167.
  \<^verbatim>\<open>rawResults[0]\<close> is read only where the list is not empty.
\<close>

definition relevantResults :: "real \<Rightarrow> jsnumber \<Rightarrow> QAResult list \<Rightarrow> QAResult list \<times> bool" where
  "relevantResults similarityThreshold FALLBACK rawResults =
     (let primary = filter (\<lambda>result. score result \<ge> similarityThreshold) rawResults in
      if length primary = 0 \<and> length rawResults > 0 \<and> fallbackThresholdValid FALLBACK then
        (let fallbackResults = filter (\<lambda>result. ge_number (score result) FALLBACK) rawResults in
         if length fallbackResults > 0 then (fallbackResults, True)
         else ([hd rawResults], True))
      else (primary, False))"

subsection \<open>The context assembler (\<^verbatim>\<open>buildContext\<close>)\<close>

text \<open>The decimal digits of a reference index, as a template literal prints it.\<close>

fun decimal :: "nat \<Rightarrow> jsstring" where
  "decimal n = (if n < 10 then [of_nat (48 + n)] else decimal (n div 10) @ [of_nat (48 + n mod 10)])"

fun js_join :: "jsstring \<Rightarrow> jsstring list \<Rightarrow> jsstring" where
  "js_join sep [] = []"
| "js_join sep [x] = x"
| "js_join sep (x # y # ys) = x @ sep @ js_join sep (y # ys)"

text \<open>\<^verbatim>\<open>.filter(Boolean)\<close> on strings and \<^verbatim>\<open>undefined\<close>: the empty string is falsy too.\<close>

fun truthy :: "jsstring option \<Rightarrow> bool" where
  "truthy None = False"
| "truthy (Some s) = (s \<noteq> [])"

definition filterBoolean :: "jsstring option list \<Rightarrow> jsstring list" where
  "filterBoolean xs = map the (filter truthy xs)"

text \<open>\<^verbatim>\<open>result.chunk.pageId ?? result.chunk.id\<close>\<close>

definition pageIdOrId :: "QAResult \<Rightarrow> jsstring" where
  "pageIdOrId result =
     (case c_pageId (chunk result) of Some p \<Rightarrow> p | None \<Rightarrow> c_id (chunk result))"

text \<open>The text of one section (lines 72 to 78); U+2014 is the dash of the heading line.\<close>

definition sectionText :: "nat \<Rightarrow> QAResult \<Rightarrow> jsstring" where
  "sectionText referenceIndex result =
     js_join [0xA] (filterBoolean
       [Some (js_str ''Reference ['' @ decimal referenceIndex @ js_str ''] '' @ [0x2014]
              @ js_str '' '' @ c_title (chunk result)),
        (if truthy (c_sourceUrl (chunk result))
         then Some (js_str ''Source: '' @ the (c_sourceUrl (chunk result))) else None),
        Some (c_content (chunk result))])"

text \<open>
  The callback of \<^verbatim>\<open>results.map\<close> with the two variables it updates:
  the array \<^verbatim>\<open>references\<close> and the map \<^verbatim>\<open>seen\<close>. \<^verbatim>\<open>!referenceIndex\<close> holds for
  a key that is not in the map, and would hold for a stored 0.
\<close>

fun buildContext_map ::
  "QAResult list \<Rightarrow> AnswerReferences list \<Rightarrow> (jsstring \<rightharpoonup> nat) \<Rightarrow> jsstring list \<times> AnswerReferences list"
where
  "buildContext_map [] references seen = ([], references)"
| "buildContext_map (result # results) references seen =
     (let pageId = pageIdOrId result in
      case (case seen pageId of None \<Rightarrow> None | Some i \<Rightarrow> if i = 0 then None else Some i) of
        Some referenceIndex \<Rightarrow>
          (let (sections, refs) = buildContext_map results references seen
           in (sectionText referenceIndex result # sections, refs))
      | None \<Rightarrow>
          (let referenceIndex = length references + 1;
               seen' = seen(pageId \<mapsto> referenceIndex);
               references' = references @
                 [\<lparr>r_index = referenceIndex, r_title = c_title (chunk result),
                   r_url = c_sourceUrl (chunk result), r_score = Some (score result),
                   r_pageId = Some pageId\<rparr>];
               (sections, refs) = buildContext_map results references' seen'
           in (sectionText referenceIndex result # sections, refs)))"

definition buildContext :: "QAResult list \<Rightarrow> jsstring \<times> AnswerReferences list" where
  "buildContext results =
     (let (sections, references) = buildContext_map results [] Map.empty
      in (js_join ([0xA, 0xA] @ js_str ''---'' @ [0xA, 0xA]) sections, references))"

subsection \<open>The engine\<close>

text \<open>
  The collaborators of the engine are not among the sources; they are the fields of an
  environment. \<^verbatim>\<open>store.search\<close>, \<^verbatim>\<open>chatCompletion\<close> and
  \<^verbatim>\<open>chatCompletionStream\<close> are remote calls that may reject with a value of type
  \<open>'x\<close>; \<^verbatim>\<open>resolveProvider\<close> may throw one. Messages (\<open>'m\<close>), provider names
  (\<open>'p\<close>) and the stream handle (\<open>'st\<close>) are opaque to the engine.
\<close>

text \<open>
  Modelled from the spec: \<^verbatim>\<open>tracePrompt\<close> and \<^verbatim>\<open>console.debug\<close>, which write to a
  trace sink that never throws into the request path and whose result is not used, and
  \<^verbatim>\<open>buildProviderMessages\<close>, which returns a message list for every input. The trace
  calls are therefore left out of \<open>prepare\<close>, and \<open>buildProviderMessages\<close> is a total
  function.
\<close>

record PromptInput =
  p_question :: jsstring
  p_chatHistory :: "jsstring option"
  p_instructions :: jsstring
  p_contextSections :: "(jsstring \<times> jsstring) list"

record ('m, 'p, 'st, 'x) QAEngine =
  search :: "jsstring \<Rightarrow> real \<Rightarrow> 'x + QAResult list"
  topK :: real
  defaultProvider :: 'p
  similarityThreshold :: real
  FALLBACK_SIMILARITY_THRESHOLD :: jsnumber
  QA_USER_PROMPT_INSTRUCTIONS :: jsstring
  buildProviderMessages :: "PromptInput \<Rightarrow> 'm"
  resolveProvider :: "'p \<Rightarrow> 'x + 'p"
  chatCompletion :: "'m \<Rightarrow> real \<Rightarrow> 'p \<Rightarrow> 'x + jsstring"
  chatCompletionStream :: "'m \<Rightarrow> real \<Rightarrow> 'p \<Rightarrow> 'x + 'st"

text \<open>
  The default of the constructor parameter \<^verbatim>\<open>similarityThreshold\<close> (lines 94 to 96),
  from the number read from the environment.
\<close>

definition defaultSimilarityThreshold :: "jsnumber \<Rightarrow> real" where
  "defaultSimilarityThreshold DEFAULT_SIMILARITY_THRESHOLD =
     (case DEFAULT_SIMILARITY_THRESHOLD of
        Finite x \<Rightarrow> min (max x 0) 1
      | _ \<Rightarrow> 0.2)"

text \<open>
  What a call throws: the \<^verbatim>\<open>Error\<close> that \<^verbatim>\<open>prepare\<close> creates, or the value a
  collaborator rejected with.
\<close>

datatype 'x thrown = Error jsstring | Rejected 'x

text \<open>The remote calls a request makes, in the order it makes them.\<close>

datatype ('m, 'p) remote = Search jsstring real | Completion 'm real 'p | CompletionStream 'm real 'p

record 'm Prepared =
  messages :: 'm
  references :: "AnswerReferences list"
  retrievalTrace :: RetrievalTrace

definition DEFAULT_TEMPERATURE :: real where
  "DEFAULT_TEMPERATURE = 0.4"

definition FALLBACK_INSTRUCTIONS :: "jsstring \<Rightarrow> jsstring" where
  "FALLBACK_INSTRUCTIONS instructions =
     instructions @ [0xA] @
     js_str ''- Retrieval context was empty; inform the user before answering from general knowledge.''"

text \<open>The entries of the trace (lines 174 to 183), one for each raw result.\<close>

definition traceResults :: "jsstring set \<Rightarrow> QAResult list \<Rightarrow> RetrievalTraceEntry list" where
  "traceResults includedIds rawResults =
     map (\<lambda>(idx, result).
            \<lparr>e_index = idx + 1, e_id = c_id (chunk result), e_score = toFixed4 (score result),
             e_title = c_title (chunk result), e_heading = c_heading (chunk result),
             e_headingPath = c_headingPath (chunk result), e_spaceKey = c_spaceKey (chunk result),
             e_included = (c_id (chunk result) \<in> includedIds)\<rparr>)
         (enumerate 0 rawResults)"

text \<open>The body of \<^verbatim>\<open>prepare\<close> from line 151 on, once the search has returned.\<close>

definition prepared ::
  "('m, 'p, 'st, 'x) QAEngine \<Rightarrow> jsstring \<Rightarrow> jsstring option \<Rightarrow> QAResult list \<Rightarrow> 'm Prepared"
where
  "prepared this question chatHistory rawResults =
     (let (relevant, fallbackApplied) =
            relevantResults (similarityThreshold this) (FALLBACK_SIMILARITY_THRESHOLD this) rawResults;
          includedIds = set (map (\<lambda>result. c_id (chunk result)) relevant);
          trace = \<lparr>t_threshold = similarityThreshold this,
                   t_fallbackApplied = fallbackApplied,
                   t_fallbackThreshold =
                     (if fallbackApplied \<and> fallbackThresholdValid (FALLBACK_SIMILARITY_THRESHOLD this)
                      then Some (FALLBACK_SIMILARITY_THRESHOLD this) else None),
                   t_results = traceResults includedIds rawResults\<rparr>
      in
      if length relevant = 0 then
        \<lparr>messages = buildProviderMessages this
           \<lparr>p_question = question, p_chatHistory = chatHistory,
            p_instructions = FALLBACK_INSTRUCTIONS (QA_USER_PROMPT_INSTRUCTIONS this),
            p_contextSections =
              [(js_str ''Retrieval Context'',
                js_str ''No relevant Confluence context was retrieved above the similarity threshold.'')]\<rparr>,
         references = [], retrievalTrace = trace\<rparr>
      else
        (let (context, refs) = buildContext relevant;
             instructions =
               (if fallbackApplied
                then QA_USER_PROMPT_INSTRUCTIONS this @ [0xA] @
                  js_str ''- Retrieved context scored below the usual similarity threshold; treat it as suggestive, not definitive.''
                else QA_USER_PROMPT_INSTRUCTIONS this)
         in \<lparr>messages = buildProviderMessages this
                \<lparr>p_question = question, p_chatHistory = chatHistory,
                 p_instructions = instructions,
                 p_contextSections = [(js_str ''Retrieval Context'', context)]\<rparr>,
              references = refs, retrievalTrace = trace\<rparr>))"

text \<open>
  \<^verbatim>\<open>prepare\<close>: the guard on the question, then the one search call. The second
  component lists the remote calls made.
\<close>

definition prepare ::
  "('m, 'p, 'st, 'x) QAEngine \<Rightarrow> jsstring \<Rightarrow> jsstring option
     \<Rightarrow> ('x thrown + 'm Prepared) \<times> ('m, 'p) remote list"
where
  "prepare this question chatHistory =
     (if trim question = [] then (Inl (Error (js_str ''Question must not be empty'')), [])
      else
        case search this question (topK this) of
          Inl x \<Rightarrow> (Inl (Rejected x), [Search question (topK this)])
        | Inr rawResults \<Rightarrow>
            (Inr (prepared this question chatHistory rawResults), [Search question (topK this)]))"

record AnswerResponse =
  a_answer :: jsstring
  a_references :: "AnswerReferences list"
  a_retrievalTrace :: RetrievalTrace

record 'st StreamingCompletion =
  s_references :: "AnswerReferences list"
  s_stream :: 'st
  s_retrievalTrace :: RetrievalTrace

text \<open>\<^verbatim>\<open>providerOverride ?? this.defaultProvider\<close>\<close>

definition providerOrDefault :: "('m, 'p, 'st, 'x) QAEngine \<Rightarrow> 'p option \<Rightarrow> 'p" where
  "providerOrDefault this providerOverride =
     (case providerOverride of Some p \<Rightarrow> p | None \<Rightarrow> defaultProvider this)"

definition answerQuestion ::
  "('m, 'p, 'st, 'x) QAEngine \<Rightarrow> jsstring \<Rightarrow> jsstring option \<Rightarrow> 'p option
     \<Rightarrow> ('x thrown + AnswerResponse) \<times> ('m, 'p) remote list"
where
  "answerQuestion this question chatHistory providerOverride =
     (case prepare this question chatHistory of
        (Inl err, calls) \<Rightarrow> (Inl err, calls)
      | (Inr prep, calls) \<Rightarrow>
         (case resolveProvider this (providerOrDefault this providerOverride) of
            Inl x \<Rightarrow> (Inl (Rejected x), calls)
          | Inr provider \<Rightarrow>
             (case chatCompletion this (messages prep) DEFAULT_TEMPERATURE provider of
                Inl x \<Rightarrow>
                  (Inl (Rejected x), calls @ [Completion (messages prep) DEFAULT_TEMPERATURE provider])
              | Inr text \<Rightarrow>
                  (Inr \<lparr>a_answer =
                          (if text \<noteq> [] then text
                           else js_str ''I do not have enough information to answer that.''),
                        a_references = references prep,
                        a_retrievalTrace = retrievalTrace prep\<rparr>,
                   calls @ [Completion (messages prep) DEFAULT_TEMPERATURE provider]))))"

definition createStreamingCompletion ::
  "('m, 'p, 'st, 'x) QAEngine \<Rightarrow> jsstring \<Rightarrow> jsstring option \<Rightarrow> 'p option
     \<Rightarrow> ('x thrown + 'st StreamingCompletion) \<times> ('m, 'p) remote list"
where
  "createStreamingCompletion this question chatHistory providerOverride =
     (case prepare this question chatHistory of
        (Inl err, calls) \<Rightarrow> (Inl err, calls)
      | (Inr prep, calls) \<Rightarrow>
         (case resolveProvider this (providerOrDefault this providerOverride) of
            Inl x \<Rightarrow> (Inl (Rejected x), calls)
          | Inr provider \<Rightarrow>
             (case chatCompletionStream this (messages prep) DEFAULT_TEMPERATURE provider of
                Inl x \<Rightarrow>
                  (Inl (Rejected x),
                   calls @ [CompletionStream (messages prep) DEFAULT_TEMPERATURE provider])
              | Inr stream \<Rightarrow>
                  (Inr \<lparr>s_references = references prep, s_stream = stream,
                        s_retrievalTrace = retrievalTrace prep\<rparr>,
                   calls @ [CompletionStream (messages prep) DEFAULT_TEMPERATURE provider]))))"

section \<open>The graph route (\<^verbatim>\<open>GET\<close> of \<^verbatim>\<open>api/graph/route.ts\<close>)\<close>

subsection \<open>Query parameters\<close>

text \<open>
  A numeric query parameter reaches \<^verbatim>\<open>parseNumber\<close> as \<^verbatim>\<open>string | null\<close>. The
  model takes it as \<open>None\<close> where \<^verbatim>\<open>!value\<close> holds (no parameter, or the empty
  string) and as \<open>Some n\<close> with \<open>n\<close> the result of \<^verbatim>\<open>Number(value)\<close> otherwise; the
  parsing of numerals by \<^verbatim>\<open>Number\<close> is not modelled.
\<close>

definition parseNumber :: "jsnumber option \<Rightarrow> real \<Rightarrow> real" where
  "parseNumber v fallback =
     (case v of
        None \<Rightarrow> fallback
      | Some n \<Rightarrow> (case n of Finite x \<Rightarrow> if x > 0 then x else fallback | _ \<Rightarrow> fallback))"

text \<open>The bounds \<^verbatim>\<open>min\<close> and \<^verbatim>\<open>max\<close> of the source are \<open>lo\<close> and \<open>hi\<close> here.\<close>

definition parseFloatInRange :: "jsnumber option \<Rightarrow> real \<Rightarrow> real \<Rightarrow> real \<Rightarrow> real" where
  "parseFloatInRange v fallback lo hi =
     (case v of
        None \<Rightarrow> fallback
      | Some n \<Rightarrow> (case n of Finite x \<Rightarrow> max lo (min hi x) | _ \<Rightarrow> fallback))"

record GraphQuery =
  q_seedPageId :: "jsstring option"
  q_maxSeeds :: "jsnumber option"
  q_topK :: "jsnumber option"
  q_threshold :: "jsnumber option"
  q_maxNodes :: "jsnumber option"

subsection \<open>The page cache\<close>

text \<open>
  The fields of a cache entry that the route reads. \<^verbatim>\<open>chunkCount\<close> is a count, hence a
  natural number.
\<close>

record VectorCacheEntry =
  v_pageId :: jsstring
  v_pageTitle :: jsstring
  v_spaceKey :: "jsstring option"
  v_chunkCount :: nat
  v_chunkIds :: "jsstring list"

text \<open>
  \<^verbatim>\<open>cache.pages\<close> is an object that \<^verbatim>\<open>JSON.parse\<close> or the literal \<^verbatim>\<open>{}\<close> created:
  its own properties, in property order, are the entries, and its prototype is
  \<^verbatim>\<open>Object.prototype\<close>. A property read \<^verbatim>\<open>pages[key]\<close> finds an own property first
  and a property of the prototype otherwise; each of those is a function or an object,
  hence truthy, and has none of the fields of an entry.
\<close>

type_synonym Pages = "(jsstring \<times> VectorCacheEntry) list"

datatype property = Own VectorCacheEntry | Inherited | Missing

definition objectPrototypeKeys :: "jsstring list" where
  "objectPrototypeKeys =
     map js_str
       [''constructor'', ''__defineGetter__'', ''__defineSetter__'', ''hasOwnProperty'',
        ''__lookupGetter__'', ''__lookupSetter__'', ''isPrototypeOf'', ''propertyIsEnumerable'',
        ''toString'', ''valueOf'', ''__proto__'', ''toLocaleString'']"

definition getProperty :: "Pages \<Rightarrow> jsstring \<Rightarrow> property" where
  "getProperty pages key =
     (case map_of pages key of
        Some entry \<Rightarrow> Own entry
      | None \<Rightarrow> if key \<in> set objectPrototypeKeys then Inherited else Missing)"

subsection \<open>Nodes, edges and the two maps\<close>

text \<open>
  A node made from a cache entry has all its fields. A node made from an inherited
  property (lines 137 to 143 with a \<^verbatim>\<open>neighborCache\<close> that is no entry) has
  \<^verbatim>\<open>undefined\<close> for id, label, chunk count and space key, and \<^verbatim>\<open>NaN\<close> for its size,
  before and after the resizing of line 186: that is \<open>NonEntryNode\<close>.
\<close>

record PageNode =
  n_id :: jsstring
  n_label :: jsstring
  n_size :: real
  n_chunkCount :: nat
  n_spaceKey :: "jsstring option"

datatype GraphNode = Node PageNode | NonEntryNode

fun node_id :: "GraphNode \<Rightarrow> jsstring option" where
  "node_id (Node n) = Some (n_id n)"
| "node_id NonEntryNode = None"

text \<open>
  \<^verbatim>\<open>const [a, b] = key.split('|')\<close>: the first piece always exists, the second is
  \<^verbatim>\<open>undefined\<close> for a key without a bar.
\<close>

record GraphEdge =
  source :: jsstring
  target :: "jsstring option"
  weight :: real

text \<open>
  A \<^verbatim>\<open>Map\<close> keeps its keys in insertion order; setting a key that is present replaces
  the value in place.
\<close>

fun map_set :: "'k \<Rightarrow> 'v \<Rightarrow> ('k \<times> 'v) list \<Rightarrow> ('k \<times> 'v) list" where
  "map_set k v [] = [(k, v)]"
| "map_set k v (p # ps) = (if fst p = k then (k, v) # ps else p # map_set k v ps)"

text \<open>\<^verbatim>\<open>m.get(k) ?? d\<close>\<close>

definition getOr :: "('k \<times> 'v) list \<Rightarrow> 'k \<Rightarrow> 'v \<Rightarrow> 'v" where
  "getOr m k d = (case map_of m k of Some v \<Rightarrow> v | None \<Rightarrow> d)"

definition has :: "('k \<times> 'v) list \<Rightarrow> 'k \<Rightarrow> bool" where
  "has m k \<longleftrightarrow> k \<in> fst ` set m"

type_synonym GraphHit = "(jsstring, real option) SearchResult"
type_synonym PageEdges = "(jsstring \<times> real) list"
type_synonym NodeMap = "(jsstring \<times> GraphNode) list"

text \<open>The object literal of lines 78, 105 and 137, for an entry.\<close>

definition pageNode :: "VectorCacheEntry \<Rightarrow> PageNode" where
  "pageNode p =
     \<lparr>n_id = v_pageId p, n_label = v_pageTitle p,
      n_size = max 1 (min 10 (real (v_chunkCount p))),
      n_chunkCount = v_chunkCount p, n_spaceKey = v_spaceKey p\<rparr>"

fun propertyNode :: "property \<Rightarrow> GraphNode" where
  "propertyNode (Own entry) = Node (pageNode entry)"
| "propertyNode other = NonEntryNode"

text \<open>The key of lines 131 and 160; \<open>0x7C\<close> is the bar.\<close>

definition edgeKey :: "jsstring \<Rightarrow> jsstring \<Rightarrow> jsstring" where
  "edgeKey x y = (if x < y then x @ [0x7C] @ y else y @ [0x7C] @ x)"

text \<open>\<^verbatim>\<open>r.score ?? 0\<close>\<close>

definition scoreOr0 :: "GraphHit \<Rightarrow> real" where
  "scoreOr0 r = (case score r of Some s \<Rightarrow> s | None \<Rightarrow> 0)"

subsection \<open>Discovery\<close>

text \<open>The body of the loop over the results of a synthetic query (lines 126 to 144).\<close>

definition seedNeighbor ::
  "Pages \<Rightarrow> VectorCacheEntry \<Rightarrow> real \<Rightarrow> GraphHit \<Rightarrow> PageEdges \<times> NodeMap \<Rightarrow> PageEdges \<times> NodeMap"
where
  "seedNeighbor pages seed threshold r st =
     (let (pageEdges, nodeMap) = st;
          neighborPageId = c_pageId (chunk r) in
      if neighborPageId = v_pageId seed then st
      else if scoreOr0 r < threshold then st
      else
        (let key = edgeKey (v_pageId seed) neighborPageId;
             pageEdges' = map_set key (getOr pageEdges key 0 + scoreOr0 r) pageEdges;
             neighborCache = getProperty pages neighborPageId
         in (pageEdges',
             if neighborCache \<noteq> Missing \<and> \<not> has nodeMap neighborPageId
             then nodeMap @ [(neighborPageId, propertyNode neighborCache)]
             else nodeMap)))"

text \<open>The body of the loop over the results of a neighbour's query (lines 156 to 161).\<close>

definition neighborEdge :: "NodeMap \<Rightarrow> real \<Rightarrow> jsstring \<Rightarrow> GraphHit \<Rightarrow> PageEdges \<Rightarrow> PageEdges" where
  "neighborEdge nodeMap threshold neighborId r pageEdges =
     (let otherId = c_pageId (chunk r) in
      if otherId = neighborId \<or> \<not> has nodeMap otherId then pageEdges
      else if scoreOr0 r < threshold then pageEdges
      else
        (let key = edgeKey neighborId otherId
         in map_set key (getOr pageEdges key 0 + scoreOr0 r * 0.5) pageEdges))"

text \<open>
  \<^verbatim>\<open>store.search\<close> takes the query, which is \<^verbatim>\<open>undefined\<close> (\<open>None\<close>) where it is the
  \<^verbatim>\<open>pageTitle\<close> of an inherited property, and the number of results wanted. It returns
  the hits or rejects; the rejection is kept as the message that the handler of line 191
  makes of it. The last component of every result below lists the search calls made.
\<close>

type_synonym GraphSearch = "jsstring option \<Rightarrow> real \<Rightarrow> jsstring + GraphHit list"
type_synonym Calls = "(jsstring option \<times> real) list"

text \<open>The loop over the synthetic queries (lines 123 to 146); a rejected call ends it.\<close>

fun expandSeed ::
  "GraphSearch \<Rightarrow> Pages \<Rightarrow> VectorCacheEntry \<Rightarrow> real \<Rightarrow> real \<Rightarrow> jsstring list
     \<Rightarrow> PageEdges \<times> NodeMap \<Rightarrow> Calls \<Rightarrow> (jsstring + PageEdges \<times> NodeMap) \<times> Calls"
where
  "expandSeed store pages seed topK' threshold [] st calls = (Inr st, calls)"
| "expandSeed store pages seed topK' threshold (q # qs) st calls =
     (case store (Some q) topK' of
        Inl message \<Rightarrow> (Inl message, calls @ [(Some q, topK')])
      | Inr results \<Rightarrow>
          expandSeed store pages seed topK' threshold qs
            (fold (seedNeighbor pages seed threshold) results st) (calls @ [(Some q, topK')]))"

text \<open>The loop over the neighbour ids (lines 150 to 163).\<close>

fun connectNeighbors ::
  "GraphSearch \<Rightarrow> Pages \<Rightarrow> NodeMap \<Rightarrow> real \<Rightarrow> real \<Rightarrow> jsstring list
     \<Rightarrow> PageEdges \<Rightarrow> Calls \<Rightarrow> (jsstring + PageEdges) \<times> Calls"
where
  "connectNeighbors store pages nodeMap topK' threshold [] pageEdges calls = (Inr pageEdges, calls)"
| "connectNeighbors store pages nodeMap topK' threshold (neighborId # ids) pageEdges calls =
     (case getProperty pages neighborId of
        Missing \<Rightarrow> connectNeighbors store pages nodeMap topK' threshold ids pageEdges calls
      | neighborCache \<Rightarrow>
         (let q = (case neighborCache of Own entry \<Rightarrow> Some (v_pageTitle entry) | _ \<Rightarrow> None);
              k = max 3 (of_int \<lfloor>topK' / 2\<rfloor>)
          in case store q k of
               Inl message \<Rightarrow> (Inl message, calls @ [(q, k)])
             | Inr results \<Rightarrow>
                 connectNeighbors store pages nodeMap topK' threshold ids
                   (fold (neighborEdge nodeMap threshold neighborId) results pageEdges)
                   (calls @ [(q, k)])))"

text \<open>
  Lines 97 to 163 for a seed that is an entry. \<^verbatim>\<open>slice(0, n)\<close> with a positive
  number \<open>n\<close> keeps the first \<open>\<lfloor>n\<rfloor>\<close> elements. \<^verbatim>\<open>seedChunkIds\<close> is computed and not
  read again.
\<close>

definition discover ::
  "GraphSearch \<Rightarrow> Pages \<Rightarrow> VectorCacheEntry \<Rightarrow> real \<Rightarrow> real \<Rightarrow> real
     \<Rightarrow> (jsstring + PageEdges \<times> NodeMap) \<times> Calls"
where
  "discover store pages seed maxSeeds topK' threshold =
     (let seedChunkIds = take (nat \<lfloor>maxSeeds\<rfloor>) (v_chunkIds seed);
          pageEdges = [];
          nodeMap = [(v_pageId seed, Node (pageNode seed))];
          syntheticQueries =
            [v_pageTitle seed,
             if truthy (v_spaceKey seed) then v_pageTitle seed @ [0x20] @ the (v_spaceKey seed)
             else v_pageTitle seed]
      in case expandSeed store pages seed topK' threshold syntheticQueries (pageEdges, nodeMap) [] of
           (Inl message, calls) \<Rightarrow> (Inl message, calls)
         | (Inr (pageEdges, nodeMap), calls) \<Rightarrow>
             (let neighborIds = take 10 (filter (\<lambda>i. i \<noteq> v_pageId seed) (map fst nodeMap))
              in case connectNeighbors store pages nodeMap topK' threshold neighborIds pageEdges calls of
                   (Inl message, calls') \<Rightarrow> (Inl message, calls')
                 | (Inr pageEdges', calls') \<Rightarrow> (Inr (pageEdges', nodeMap), calls')))"

subsection \<open>The response\<close>

fun js_split :: "jschar \<Rightarrow> jsstring \<Rightarrow> jsstring list" where
  "js_split sep [] = [[]]"
| "js_split sep (c # cs) =
     (if c = sep then [] # js_split sep cs
      else (case js_split sep cs of [] \<Rightarrow> [[c]] | piece # pieces \<Rightarrow> (c # piece) # pieces))"

text \<open>The callback of line 170.\<close>

definition entryEdge :: "jsstring \<times> real \<Rightarrow> GraphEdge" where
  "entryEdge entry =
     (case js_split 0x7C (fst entry) of
        a # b # rest \<Rightarrow> \<lparr>source = a, target = Some b, weight = snd entry\<rparr>
      | [a] \<Rightarrow> \<lparr>source = a, target = None, weight = snd entry\<rparr>
      | [] \<Rightarrow> \<lparr>source = [], target = None, weight = snd entry\<rparr>)"

text \<open>The loop of lines 180 to 183.\<close>

definition countEdge :: "GraphEdge \<Rightarrow> (jsstring option \<times> nat) list \<Rightarrow> (jsstring option \<times> nat) list" where
  "countEdge e degree =
     (let degree' = map_set (Some (source e)) (getOr degree (Some (source e)) 0 + 1) degree
      in map_set (target e) (getOr degree' (target e) 0 + 1) degree')"

text \<open>The callback of line 184.\<close>

fun resize :: "(jsstring option \<times> nat) list \<Rightarrow> GraphNode \<Rightarrow> GraphNode" where
  "resize degree (Node n) =
     Node (n\<lparr>n_size := min 18 (max 6 (real (getOr degree (Some (n_id n)) 1)
                                       + log 10 (real (n_chunkCount n) + 1) * 2))\<rparr>)"
| "resize degree NonEntryNode = NonEntryNode"

datatype response = Json "GraphNode list" "GraphEdge list" | ErrorJson jsstring nat

text \<open>
  Lines 166 to 189. \<^verbatim>\<open>sort\<close> is stable and the comparator orders by descending weight:
  that is the stable insertion sort on the negated weight.
\<close>

definition respond :: "real \<Rightarrow> PageEdges \<times> NodeMap \<Rightarrow> response" where
  "respond maxNodes st =
     (let (pageEdges, nodeMap) = st;
          limitedNodes = take (nat \<lfloor>maxNodes\<rfloor>) (map snd nodeMap);
          allowed = set (map node_id limitedNodes);
          edges = take (nat \<lfloor>max 20 (maxNodes * 2)\<rfloor>)
                    (sort_key (\<lambda>e. - weight e)
                       (filter (\<lambda>e. Some (source e) \<in> allowed \<and> target e \<in> allowed)
                          (map entryEdge pageEdges)));
          degree = fold countEdge edges [];
          nodes = map (resize degree) limitedNodes
      in Json nodes edges)"

text \<open>
  The handler. \<^verbatim>\<open>getPineconeStore\<close> gives the store (its \<^verbatim>\<open>search\<close>) or rejects. For a seed id that
  names an inherited property, \<^verbatim>\<open>seed.chunkIds\<close> is \<^verbatim>\<open>undefined\<close> and the call of
  \<^verbatim>\<open>slice\<close> on it throws the \<^verbatim>\<open>TypeError\<close> whose message is given here as V8 words
  it. Every exception ends in the handler of line 190.
\<close>

definition GET :: "GraphQuery \<Rightarrow> Pages \<Rightarrow> jsstring + GraphSearch \<Rightarrow> response \<times> Calls" where
  "GET query pages getPineconeStore =
     (let seedPageId = q_seedPageId query;
          maxSeeds = parseNumber (q_maxSeeds query) 5;
          topK' = parseNumber (q_topK query) 5;
          threshold = parseFloatInRange (q_threshold query) 0.25 0 1;
          maxNodes = parseNumber (q_maxNodes query) 50
      in
      if \<not> truthy seedPageId then
        (Json (map (\<lambda>p. Node (pageNode p)) (take (nat \<lfloor>min maxNodes 25\<rfloor>) (map snd pages))) [], [])
      else
        case getProperty pages (the seedPageId) of
          Missing \<Rightarrow> (ErrorJson (js_str ''seedPageId not found in vector cache'') 404, [])
        | Inherited \<Rightarrow>
            (case getPineconeStore of
               Inl message \<Rightarrow> (ErrorJson message 500, [])
             | Inr store \<Rightarrow>
                 (ErrorJson (js_str ''Cannot read properties of undefined (reading '' @ [0x27]
                             @ js_str ''slice'' @ [0x27] @ js_str '')'') 500, []))
        | Own seed \<Rightarrow>
            (case getPineconeStore of
               Inl message \<Rightarrow> (ErrorJson message 500, [])
             | Inr store \<Rightarrow>
                 (case discover store pages seed maxSeeds topK' threshold of
                    (Inl message, calls) \<Rightarrow> (ErrorJson message 500, calls)
                  | (Inr st, calls) \<Rightarrow> (respond maxNodes st, calls))))"

subsection \<open>A description of the references, for the proofs\<close>

text \<open>
  Not part of the source: the references that \<open>buildContext\<close> adds, written as a
  function of the results alone. \<open>n\<close> is the number of references made so far and \<open>S\<close>
  the set of ids they stand for. The proofs show that the loop of the source computes
  this list.
\<close>

fun firstSeenReferences :: "nat \<Rightarrow> jsstring set \<Rightarrow> QAResult list \<Rightarrow> AnswerReferences list" where
  "firstSeenReferences n S [] = []"
| "firstSeenReferences n S (result # results) =
     (if pageIdOrId result \<in> S then firstSeenReferences n S results
      else \<lparr>r_index = n + 1, r_title = c_title (chunk result), r_url = c_sourceUrl (chunk result),
            r_score = Some (score result), r_pageId = Some (pageIdOrId result)\<rparr>
           # firstSeenReferences (n + 1) (insert (pageIdOrId result) S) results)"

section \<open>Example inputs\<close>

text \<open>
  A small engine for the scenarios of the retrieval policy: threshold 0.75, fallback
  threshold 0.6, and a store that answers every query with two chunks of one page,
  scored 0.4 and 0.3. Messages are the prompt inputs themselves.
\<close>

definition ex_chunk :: "jsstring \<Rightarrow> 'p \<Rightarrow> 'p Chunk" where
  "ex_chunk i p =
     \<lparr>c_id = i, c_pageId = p, c_title = js_str ''Title of '' @ i, c_heading = None,
      c_headingPath = None, c_spaceKey = None, c_sourceUrl = None, c_content = js_str ''text''\<rparr>"

definition ex_raw :: "QAResult list" where
  "ex_raw =
     [\<lparr>chunk = ex_chunk (js_str ''c1'') (Some (js_str ''p1'')), score = 0.4\<rparr>,
      \<lparr>chunk = ex_chunk (js_str ''c2'') (Some (js_str ''p1'')), score = 0.3\<rparr>]"

definition ex_engine :: "(PromptInput, unit, unit, unit) QAEngine" where
  "ex_engine =
     \<lparr>search = (\<lambda>query k. Inr ex_raw), topK = 5, defaultProvider = (),
      similarityThreshold = 0.75, FALLBACK_SIMILARITY_THRESHOLD = Finite 0.6,
      QA_USER_PROMPT_INSTRUCTIONS = js_str ''Answer from the context.'',
      buildProviderMessages = (\<lambda>input. input), resolveProvider = Inr,
      chatCompletion = (\<lambda>m t p. Inr (js_str ''ok'')),
      chatCompletionStream = (\<lambda>m t p. Inr ())\<rparr>"

text \<open>
  The same engine over a store that returns one chunk id twice, scored 0.8 and 0.3: only
  the first of the two passes the threshold.
\<close>

definition ex_raw_dup :: "QAResult list" where
  "ex_raw_dup =
     [\<lparr>chunk = ex_chunk (js_str ''c1'') (Some (js_str ''p1'')), score = 0.8\<rparr>,
      \<lparr>chunk = ex_chunk (js_str ''c1'') (Some (js_str ''p1'')), score = 0.3\<rparr>]"

definition ex_engine_dup :: "(PromptInput, unit, unit, unit) QAEngine" where
  "ex_engine_dup = ex_engine\<lparr>search := (\<lambda>query k. Inr ex_raw_dup)\<rparr>"

text \<open>
  Results for the context assembler: two chunks of page \<open>p1\<close> around one of page
  \<open>p2\<close>, and a chunk without a page id.
\<close>

definition ex_results :: "QAResult list" where
  "ex_results =
     [\<lparr>chunk = ex_chunk (js_str ''c1'') (Some (js_str ''p1'')), score = 0.9\<rparr>,
      \<lparr>chunk = ex_chunk (js_str ''c2'') (Some (js_str ''p2'')), score = 0.8\<rparr>,
      \<lparr>chunk = ex_chunk (js_str ''c3'') (Some (js_str ''p1'')), score = 0.7\<rparr>,
      \<lparr>chunk = ex_chunk (js_str ''c4'') None, score = 0.6\<rparr>]"

text \<open>
  A cache of two pages and four stores for the graph route. Page \<open>A\<close> has 999 chunks
  and a space key, so its two synthetic queries differ. The first store returns a chunk
  of page \<open>B\<close> for both, scored 0.5 and 0.4, and nothing for any other query; the second
  rejects the second synthetic query; the third finds nothing at all; the fourth is the
  first with a chunk of page \<open>A\<close>, scored 0.3, for the title of page \<open>B\<close>.
\<close>

definition ex_pageA :: VectorCacheEntry where
  "ex_pageA = \<lparr>v_pageId = js_str ''A'', v_pageTitle = js_str ''Alpha'',
               v_spaceKey = Some (js_str ''DOC''), v_chunkCount = 999,
               v_chunkIds = [js_str ''A-0'', js_str ''A-1'']\<rparr>"

definition ex_pageB :: VectorCacheEntry where
  "ex_pageB = \<lparr>v_pageId = js_str ''B'', v_pageTitle = js_str ''Beta'',
               v_spaceKey = None, v_chunkCount = 3, v_chunkIds = [js_str ''B-0'']\<rparr>"

definition ex_pages :: Pages where
  "ex_pages = [(js_str ''A'', ex_pageA), (js_str ''B'', ex_pageB)]"

definition ex_hit :: "jsstring \<Rightarrow> real \<Rightarrow> GraphHit" where
  "ex_hit p s = \<lparr>chunk = ex_chunk (p @ js_str ''-0'') p, score = Some s\<rparr>"

definition ex_store :: GraphSearch where
  "ex_store q k =
     (if q = Some (js_str ''Alpha'') then Inr [ex_hit (js_str ''B'') 0.5]
      else if q = Some (js_str ''Alpha DOC'') then Inr [ex_hit (js_str ''B'') 0.4]
      else Inr [])"

definition ex_store_failing :: GraphSearch where
  "ex_store_failing q k =
     (if q = Some (js_str ''Alpha'') then Inr [ex_hit (js_str ''B'') 0.5]
      else if q = Some (js_str ''Alpha DOC'') then Inl (js_str ''upstream timeout'')
      else Inr [])"

definition ex_store_empty :: GraphSearch where
  "ex_store_empty q k = Inr []"

definition ex_store_back :: GraphSearch where
  "ex_store_back q k =
     (if q = Some (js_str ''Alpha'') then Inr [ex_hit (js_str ''B'') 0.5]
      else if q = Some (js_str ''Alpha DOC'') then Inr [ex_hit (js_str ''B'') 0.4]
      else if q = Some (js_str ''Beta'') then Inr [ex_hit (js_str ''A'') 0.3]
      else Inr [])"

definition ex_query :: "jsstring \<Rightarrow> GraphQuery" where
  "ex_query seedPageId =
     \<lparr>q_seedPageId = Some seedPageId, q_maxSeeds = None, q_topK = None,
      q_threshold = None, q_maxNodes = None\<rparr>"

section \<open>Properties\<close>

subsection \<open>The retrieval policy\<close>



lemma buildContext_Nil: "buildContext [] = ([], [])"
  by (simp add: buildContext_def)

lemma references_prepared:
  "references (prepared this q h raw) =
     snd (buildContext (fst (relevantResults (similarityThreshold this) (FALLBACK_SIMILARITY_THRESHOLD this) raw)))"
  by (auto simp: prepared_def Let_def buildContext_Nil split: prod.splits)

lemma trace_prepared:
  "retrievalTrace (prepared this q h raw) =
     (let (relevant, fallbackApplied) =
            relevantResults (similarityThreshold this) (FALLBACK_SIMILARITY_THRESHOLD this) raw
      in \<lparr>t_threshold = similarityThreshold this,
          t_fallbackApplied = fallbackApplied,
          t_fallbackThreshold =
            (if fallbackApplied \<and> fallbackThresholdValid (FALLBACK_SIMILARITY_THRESHOLD this)
             then Some (FALLBACK_SIMILARITY_THRESHOLD this) else None),
          t_results = traceResults (set (map (\<lambda>result. c_id (chunk result)) relevant)) raw\<rparr>)"
  by (auto simp: prepared_def Let_def split: prod.splits)

lemma prepare_ok:
  "trim q \<noteq> [] \<Longrightarrow> search this q (topK this) = Inr raw \<Longrightarrow>
   prepare this q h = (Inr (prepared this q h raw), [Search q (topK this)])"
  by (simp add: prepare_def)

lemma trim_blank_iff: "trim q = [] \<longleftrightarrow> (\<forall>c\<in>set q. isWhiteSpace c)"
proof
  assume "trim q = []"
  then have all: "\<forall>x\<in>set (dropWhile isWhiteSpace q). isWhiteSpace x"
    by (simp add: trim_def dropWhile_eq_Nil_conv)
  have "dropWhile isWhiteSpace q = []"
  proof (rule ccontr)
    assume ne: "dropWhile isWhiteSpace q \<noteq> []"
    then have "\<not> isWhiteSpace (hd (dropWhile isWhiteSpace q))"
      by (rule hd_dropWhile)
    moreover have "hd (dropWhile isWhiteSpace q) \<in> set (dropWhile isWhiteSpace q)"
      using ne by simp
    ultimately show False using all by blast
  qed
  then show "\<forall>c\<in>set q. isWhiteSpace c"
    by (simp add: dropWhile_eq_Nil_conv)
next
  assume "\<forall>c\<in>set q. isWhiteSpace c"
  then show "trim q = []"
    by (auto simp: trim_def dropWhile_eq_Nil_conv dest: set_dropWhileD)
qed



lemma ex_question_trim: "trim (js_str ''q'') \<noteq> []"
  by (simp add: trim_def js_str_def isWhiteSpace_def)


text \<open>
  Claim C7. A question that is empty or made of white space only makes both
  \<open>answerQuestion\<close> and \<open>createStreamingCompletion\<close> throw the input error of
  \<open>prepare\<close>; the list of remote calls is empty and no response is produced.
\<close>

theorem C7_blank_question_rejected:
  assumes "\<forall>c\<in>set question. isWhiteSpace c"
  shows "answerQuestion this question chatHistory providerOverride =
           (Inl (Error (js_str ''Question must not be empty'')), [])
       \<and> createStreamingCompletion this question chatHistory providerOverride =
           (Inl (Error (js_str ''Question must not be empty'')), [])"
proof -
  have "trim question = []"
    using assms by (simp only: trim_blank_iff)
  then have "prepare this question chatHistory = (Inl (Error (js_str ''Question must not be empty'')), [])"
    by (simp add: prepare_def)
  then show ?thesis
    by (simp add: answerQuestion_def createStreamingCompletion_def)
qed

theorem C7_blank_question_rejected_witness:
  "answerQuestion ex_engine [0x20, 0x9, 0x3000] None None =
     (Inl (Error (js_str ''Question must not be empty'')), [])
   \<and> createStreamingCompletion ex_engine [0x20, 0x9, 0x3000] None None =
     (Inl (Error (js_str ''Question must not be empty'')), [])
   \<and> answerQuestion ex_engine [] None None =
     (Inl (Error (js_str ''Question must not be empty'')), [])"
proof -
  have "\<forall>c\<in>set [0x20, 0x9, 0x3000 :: jschar]. isWhiteSpace c"
    by (simp add: isWhiteSpace_def)
  moreover have "\<forall>c\<in>set ([] :: jsstring). isWhiteSpace c"
    by simp
  ultimately show ?thesis
    using C7_blank_question_rejected [of "[0x20, 0x9, 0x3000]" ex_engine None None]
      C7_blank_question_rejected [of "[]" ex_engine None None]
    by blast
qed

text \<open>
  Claim C9. For a question that passes the guard, when the search, the provider
  resolution and the opening of the stream succeed, \<open>createStreamingCompletion\<close>
  returns the stream handle together with references and a retrieval trace that are
  functions of the engine's thresholds and the raw search results alone: neither
  mentions the provider or the stream, which is returned unread.
\<close>

theorem C9_metadata_before_stream:
  assumes "trim question \<noteq> []"
      and "search this question (topK this) = Inr raw"
      and "resolveProvider this (providerOrDefault this providerOverride) = Inr provider"
      and "chatCompletionStream this (messages (prepared this question chatHistory raw))
             DEFAULT_TEMPERATURE provider = Inr stream"
  shows "createStreamingCompletion this question chatHistory providerOverride =
     (Inr \<lparr>s_references =
             snd (buildContext (fst (relevantResults (similarityThreshold this)
                    (FALLBACK_SIMILARITY_THRESHOLD this) raw))),
           s_stream = stream,
           s_retrievalTrace =
             (let (relevant, fallbackApplied) =
                    relevantResults (similarityThreshold this) (FALLBACK_SIMILARITY_THRESHOLD this) raw
              in \<lparr>t_threshold = similarityThreshold this,
                  t_fallbackApplied = fallbackApplied,
                  t_fallbackThreshold =
                    (if fallbackApplied \<and> fallbackThresholdValid (FALLBACK_SIMILARITY_THRESHOLD this)
                     then Some (FALLBACK_SIMILARITY_THRESHOLD this) else None),
                  t_results = traceResults (set (map (\<lambda>result. c_id (chunk result)) relevant)) raw\<rparr>)\<rparr>,
      [Search question (topK this),
       CompletionStream (messages (prepared this question chatHistory raw)) DEFAULT_TEMPERATURE provider])"
proof -
  have "prepare this question chatHistory =
      (Inr (prepared this question chatHistory raw), [Search question (topK this)])"
    using assms(1,2) by (rule prepare_ok)
  then show ?thesis
    using assms(3,4)
    by (simp add: createStreamingCompletion_def references_prepared trace_prepared)
qed

theorem C9_metadata_before_stream_witness:
  "\<exists>r. createStreamingCompletion ex_engine (js_str ''q'') None None =
          (Inr r, [Search (js_str ''q'') 5,
                   CompletionStream (messages (prepared ex_engine (js_str ''q'') None ex_raw))
                     DEFAULT_TEMPERATURE ()])
      \<and> s_references r = snd (buildContext (fst (relevantResults 0.75 (Finite 0.6) ex_raw)))
      \<and> s_stream r = ()"
proof -
  have s: "search ex_engine (js_str ''q'') (topK ex_engine) = Inr ex_raw"
    by (simp add: ex_engine_def)
  have r: "resolveProvider ex_engine (providerOrDefault ex_engine None) = Inr ()"
    by (simp add: ex_engine_def)
  have c: "chatCompletionStream ex_engine (messages (prepared ex_engine (js_str ''q'') None ex_raw))
             DEFAULT_TEMPERATURE () = Inr ()"
    by (simp add: ex_engine_def)
  have cfg: "similarityThreshold ex_engine = 0.75" "FALLBACK_SIMILARITY_THRESHOLD ex_engine = Finite 0.6"
    "topK ex_engine = 5"
    by (simp_all add: ex_engine_def)
  show ?thesis
    using C9_metadata_before_stream [OF ex_question_trim s r c]
    unfolding cfg by simp
qed

subsection \<open>The retrieval trace\<close>

lemma toFixed4_nonneg_close:
  fixes x :: real
  shows "\<bar>of_int \<lfloor>x * 10 ^ 4 + 1 / 2\<rfloor> / 10 ^ 4 - x\<bar> \<le> 1 / 20000"
proof -
  define n where "n = \<lfloor>x * 10 ^ 4 + 1 / 2\<rfloor>"
  define y :: real where "y = of_int n / 10 ^ 4"
  have y: "y * 10000 = of_int n"
    by (simp add: y_def)
  have "of_int n \<le> x * 10 ^ 4 + 1 / 2" "x * 10 ^ 4 + 1 / 2 < of_int n + 1"
    unfolding n_def by linarith+
  then have "y * 10000 \<le> x * 10000 + 1 / 2" "x * 10000 + 1 / 2 < y * 10000 + 1"
    unfolding y by simp_all
  then have "\<bar>y - x\<bar> \<le> 1 / 20000"
    by linarith
  then show ?thesis
    by (simp add: y_def n_def)
qed

lemma toFixed4_close: "\<bar>toFixed4 x - x\<bar> \<le> 1 / 20000"
proof -
  have "\<bar>- (of_int \<lfloor>(- x) * 10 ^ 4 + 1 / 2\<rfloor> / 10 ^ 4) - x\<bar> =
        \<bar>of_int \<lfloor>(- x) * 10 ^ 4 + 1 / 2\<rfloor> / 10 ^ 4 - (- x)\<bar>"
    by (simp add: abs_minus_commute)
  with toFixed4_nonneg_close [of x] toFixed4_nonneg_close [of "- x"]
  show ?thesis
    by (simp add: toFixed4_def)
qed

lemma toFixed4_decimals: "\<bar>x\<bar> < 10 ^ 21 \<Longrightarrow> toFixed4 x * 10 ^ 4 \<in> \<int>"
  by (simp add: toFixed4_def)

lemma relevantResults_subset: "set (fst (relevantResults thr fb raw)) \<subseteq> set raw"
  by (auto simp: relevantResults_def Let_def hd_in_set)

lemma length_traceResults: "length (traceResults ids raw) = length raw"
  by (simp add: traceResults_def)

lemma nth_traceResults:
  "i < length raw \<Longrightarrow>
   traceResults ids raw ! i =
     \<lparr>e_index = i + 1, e_id = c_id (chunk (raw ! i)), e_score = toFixed4 (score (raw ! i)),
      e_title = c_title (chunk (raw ! i)), e_heading = c_heading (chunk (raw ! i)),
      e_headingPath = c_headingPath (chunk (raw ! i)), e_spaceKey = c_spaceKey (chunk (raw ! i)),
      e_included = (c_id (chunk (raw ! i)) \<in> ids)\<rparr>"
  by (simp add: traceResults_def nth_enumerate_eq)

lemma t_results_prepared:
  "t_results (retrievalTrace (prepared this q h raw)) =
     traceResults ((\<lambda>r. c_id (chunk r)) ` set (fst (relevantResults (similarityThreshold this)
        (FALLBACK_SIMILARITY_THRESHOLD this) raw))) raw"
  by (simp add: trace_prepared split: prod.splits)

lemma member_by_id:
  assumes "distinct (map (\<lambda>r. c_id (chunk r)) raw)" and "set used \<subseteq> set raw" and "r \<in> set raw"
  shows "c_id (chunk r) \<in> (\<lambda>u. c_id (chunk u)) ` set used \<longleftrightarrow> r \<in> set used"
proof
  assume "c_id (chunk r) \<in> (\<lambda>u. c_id (chunk u)) ` set used"
  then obtain u where u: "u \<in> set used" "c_id (chunk u) = c_id (chunk r)" by auto
  have "inj_on (\<lambda>r. c_id (chunk r)) (set raw)"
    using assms(1) by (simp add: distinct_map)
  with u assms(2,3) have "u = r" by (auto dest: inj_onD)
  with u show "r \<in> set used" by simp
qed auto

text \<open>
  Claim C2, as amended. For a question that passes the guard and a raw result list
  returned by the search, the trace has one entry for each raw result, in raw order: entry
  \<open>i\<close> carries index \<open>i + 1\<close>, the id and title of raw result \<open>i\<close> and its score rounded
  to four decimals (within 0.00005 of the score, a multiple of 0.0001). Its \<open>included\<close>
  flag is true exactly when the chunk id of the result is the chunk id of a result handed
  to the context assembler, whichever branch of the filter produced that list; for raw
  results with distinct chunk ids that is membership of the result itself in the list.
\<close>

theorem C2_trace_entries:
  assumes "trim question \<noteq> []"
      and "search this question (topK this) = Inr raw"
  shows "\<exists>p used tr.
      prepare this question chatHistory = (Inr p, [Search question (topK this)])
    \<and> used = fst (relevantResults (similarityThreshold this) (FALLBACK_SIMILARITY_THRESHOLD this) raw)
    \<and> references p = snd (buildContext used)
    \<and> tr = t_results (retrievalTrace p)
    \<and> length tr = length raw
    \<and> (\<forall>i<length raw.
          e_index (tr ! i) = i + 1
        \<and> e_id (tr ! i) = c_id (chunk (raw ! i))
        \<and> e_title (tr ! i) = c_title (chunk (raw ! i))
        \<and> e_score (tr ! i) = toFixed4 (score (raw ! i))
        \<and> \<bar>e_score (tr ! i) - score (raw ! i)\<bar> \<le> 1 / 20000
        \<and> (\<bar>score (raw ! i)\<bar> < 10 ^ 21 \<longrightarrow> e_score (tr ! i) * 10 ^ 4 \<in> \<int>)
        \<and> (e_included (tr ! i) \<longleftrightarrow> c_id (chunk (raw ! i)) \<in> (\<lambda>u. c_id (chunk u)) ` set used)
        \<and> (distinct (map (\<lambda>r. c_id (chunk r)) raw) \<longrightarrow>
             (e_included (tr ! i) \<longleftrightarrow> raw ! i \<in> set used)))"
proof -
  let ?used = "fst (relevantResults (similarityThreshold this) (FALLBACK_SIMILARITY_THRESHOLD this) raw)"
  let ?p = "prepared this question chatHistory raw"
  let ?tr = "t_results (retrievalTrace ?p)"
  have prep: "prepare this question chatHistory = (Inr ?p, [Search question (topK this)])"
    using assms by (rule prepare_ok)
  have refs: "references ?p = snd (buildContext ?used)"
    by (rule references_prepared)
  have tr: "?tr = traceResults ((\<lambda>r. c_id (chunk r)) ` set ?used) raw"
    by (rule t_results_prepared)
  have len: "length ?tr = length raw"
    by (simp add: tr length_traceResults)
  have entries: "e_index (?tr ! i) = i + 1
        \<and> e_id (?tr ! i) = c_id (chunk (raw ! i))
        \<and> e_title (?tr ! i) = c_title (chunk (raw ! i))
        \<and> e_score (?tr ! i) = toFixed4 (score (raw ! i))
        \<and> \<bar>e_score (?tr ! i) - score (raw ! i)\<bar> \<le> 1 / 20000
        \<and> (\<bar>score (raw ! i)\<bar> < 10 ^ 21 \<longrightarrow> e_score (?tr ! i) * 10 ^ 4 \<in> \<int>)
        \<and> (e_included (?tr ! i) \<longleftrightarrow> c_id (chunk (raw ! i)) \<in> (\<lambda>u. c_id (chunk u)) ` set ?used)
        \<and> (distinct (map (\<lambda>r. c_id (chunk r)) raw) \<longrightarrow>
             (e_included (?tr ! i) \<longleftrightarrow> raw ! i \<in> set ?used))"
    if i: "i < length raw" for i
  proof -
    have e: "?tr ! i =
       \<lparr>e_index = i + 1, e_id = c_id (chunk (raw ! i)), e_score = toFixed4 (score (raw ! i)),
        e_title = c_title (chunk (raw ! i)), e_heading = c_heading (chunk (raw ! i)),
        e_headingPath = c_headingPath (chunk (raw ! i)), e_spaceKey = c_spaceKey (chunk (raw ! i)),
        e_included = (c_id (chunk (raw ! i)) \<in> (\<lambda>r. c_id (chunk r)) ` set ?used)\<rparr>"
      unfolding tr using i by (rule nth_traceResults)
    have mem: "distinct (map (\<lambda>r. c_id (chunk r)) raw) \<longrightarrow>
        (c_id (chunk (raw ! i)) \<in> (\<lambda>u. c_id (chunk u)) ` set ?used \<longleftrightarrow> raw ! i \<in> set ?used)"
      using member_by_id [OF _ relevantResults_subset, of raw "raw ! i"] i by simp
    show ?thesis
      unfolding e using mem toFixed4_close [of "score (raw ! i)"] toFixed4_decimals [of "score (raw ! i)"]
      by simp
  qed
  show ?thesis
    using prep refs len entries by blast
qed

lemma ex_relevant: "relevantResults 0.75 (Finite 0.6) ex_raw = ([ex_raw ! 0], True)"
  by (simp add: relevantResults_def ex_raw_def fallbackThresholdValid_def)

theorem C2_trace_entries_witness:
  "\<exists>p. prepare ex_engine (js_str ''q'') None = (Inr p, [Search (js_str ''q'') 5])
     \<and> length (t_results (retrievalTrace p)) = 2
     \<and> e_included (t_results (retrievalTrace p) ! 0)
     \<and> \<not> e_included (t_results (retrievalTrace p) ! 1)
     \<and> e_index (t_results (retrievalTrace p) ! 1) = 2"
proof -
  have s: "search ex_engine (js_str ''q'') (topK ex_engine) = Inr ex_raw"
    by (simp add: ex_engine_def)
  have cfg: "similarityThreshold ex_engine = 0.75" "FALLBACK_SIMILARITY_THRESHOLD ex_engine = Finite 0.6"
    "topK ex_engine = 5"
    by (simp_all add: ex_engine_def)
  have len: "length ex_raw = 2"
    by (simp add: ex_raw_def)
  have ids: "c_id (chunk (ex_raw ! 0)) = js_str ''c1''" "c_id (chunk (ex_raw ! Suc 0)) = js_str ''c2''"
    by (simp_all add: ex_raw_def ex_chunk_def)
  have ne: "js_str ''c2'' \<noteq> js_str ''c1''"
    by (simp add: js_str_def card_insert_if)
  from C2_trace_entries [OF ex_question_trim s, of None]
  obtain p tr where
    p: "prepare ex_engine (js_str ''q'') None = (Inr p, [Search (js_str ''q'') 5])"
    and tr: "tr = t_results (retrievalTrace p)" "length tr = length ex_raw"
    and all: "\<forall>i<length ex_raw.
          e_index (tr ! i) = i + 1
        \<and> (e_included (tr ! i) \<longleftrightarrow>
             c_id (chunk (ex_raw ! i)) \<in> (\<lambda>u. c_id (chunk u)) ` set [ex_raw ! 0])"
    unfolding cfg ex_relevant fst_conv by blast
  from all len have "e_included (tr ! 0)" "\<not> e_included (tr ! 1)" "e_index (tr ! 1) = 2"
    by (simp_all add: ids ne)
  with p tr len show ?thesis
    by auto
qed

lemma ex_relevant_dup: "relevantResults 0.75 (Finite 0.6) ex_raw_dup = ([ex_raw_dup ! 0], False)"
  by (simp add: relevantResults_def ex_raw_dup_def)

text \<open>
  Against claim C2 as stated: the store returns chunk \<open>c1\<close> twice, scored 0.8 and 0.3,
  and the threshold is 0.75. The primary filter keeps the first result only; the second
  result is not among the results used, yet its entry in the trace is marked included,
  because the flag is decided by the chunk id.
\<close>

theorem C2_duplicate_id_counterexample:
  "\<exists>p used. prepare ex_engine_dup (js_str ''q'') None = (Inr p, [Search (js_str ''q'') 5])
     \<and> used = fst (relevantResults 0.75 (Finite 0.6) ex_raw_dup)
     \<and> used = [ex_raw_dup ! 0]
     \<and> references p = snd (buildContext used)
     \<and> length (t_results (retrievalTrace p)) = 2
     \<and> e_included (t_results (retrievalTrace p) ! 1)
     \<and> ex_raw_dup ! 1 \<notin> set used"
proof -
  let ?p = "prepared ex_engine_dup (js_str ''q'') None ex_raw_dup"
  have s: "search ex_engine_dup (js_str ''q'') (topK ex_engine_dup) = Inr ex_raw_dup"
    by (simp add: ex_engine_dup_def)
  have cfg: "similarityThreshold ex_engine_dup = 0.75"
    "FALLBACK_SIMILARITY_THRESHOLD ex_engine_dup = Finite 0.6" "topK ex_engine_dup = 5"
    by (simp_all add: ex_engine_dup_def ex_engine_def)
  have p: "prepare ex_engine_dup (js_str ''q'') None = (Inr ?p, [Search (js_str ''q'') 5])"
    using prepare_ok [OF ex_question_trim s, of None] by (simp add: cfg)
  have refs: "references ?p = snd (buildContext [ex_raw_dup ! 0])"
    unfolding references_prepared cfg ex_relevant_dup by simp
  have tr: "t_results (retrievalTrace ?p) =
      traceResults ((\<lambda>r. c_id (chunk r)) ` set [ex_raw_dup ! 0]) ex_raw_dup"
    unfolding t_results_prepared cfg ex_relevant_dup by simp
  have len: "length (t_results (retrievalTrace ?p)) = 2"
    unfolding tr length_traceResults by (simp add: ex_raw_dup_def)
  have inc: "e_included (t_results (retrievalTrace ?p) ! 1)"
    unfolding tr by (simp add: nth_traceResults ex_raw_dup_def)
  have out: "ex_raw_dup ! 1 \<notin> set [ex_raw_dup ! 0]"
    by (simp add: ex_raw_dup_def)
  show ?thesis
    using p refs len inc out ex_relevant_dup by auto
qed

subsection \<open>The context assembler\<close>

lemma remdups_snoc: "remdups (xs @ [k]) = filter (\<lambda>x. x \<noteq> k) (remdups xs) @ [k]"
  by (induction xs) auto

lemma first_seen_Cons:
  "rev (remdups (rev (k # ks))) = k # filter (\<lambda>x. x \<noteq> k) (rev (remdups (rev ks)))"
  by (simp add: remdups_snoc rev_filter)

lemma snd_buildContext_map_Cons:
  "snd (buildContext_map (result # results) refs seen) =
     (if seen (pageIdOrId result) = None \<or> seen (pageIdOrId result) = Some 0
      then snd (buildContext_map results
             (refs @ [\<lparr>r_index = length refs + 1, r_title = c_title (chunk result),
                       r_url = c_sourceUrl (chunk result), r_score = Some (score result),
                       r_pageId = Some (pageIdOrId result)\<rparr>])
             (seen(pageIdOrId result \<mapsto> length refs + 1)))
      else snd (buildContext_map results refs seen))"
  by (simp add: Let_def split: prod.splits option.splits)

lemma buildContext_map_refs:
  assumes "\<forall>k. seen k \<noteq> Some 0"
  shows "snd (buildContext_map results refs seen) =
         refs @ firstSeenReferences (length refs) (dom seen) results"
  using assms
proof (induction results arbitrary: refs seen)
  case Nil
  then show ?case by simp
next
  case (Cons result results)
  let ?k = "pageIdOrId result"
  show ?case
  proof (cases "seen ?k")
    case None
    let ?seen = "seen(?k \<mapsto> length refs + 1)"
    let ?new = "\<lparr>r_index = length refs + 1, r_title = c_title (chunk result),
                 r_url = c_sourceUrl (chunk result), r_score = Some (score result),
                 r_pageId = Some ?k\<rparr>"
    have ih: "snd (buildContext_map results (refs @ [?new]) ?seen) =
          (refs @ [?new]) @ firstSeenReferences (length (refs @ [?new])) (dom ?seen) results"
      by (rule Cons.IH) (use Cons.prems in simp)
    have d: "dom ?seen = insert ?k (dom seen)"
      by simp
    have l: "length (refs @ [?new]) = length refs + 1"
      by simp
    have step: "snd (buildContext_map (result # results) refs seen) =
        snd (buildContext_map results (refs @ [?new]) ?seen)"
      using None by (simp only: snd_buildContext_map_Cons) simp
    have "?k \<notin> dom seen"
      using None by (simp add: domIff)
    then have rhs: "firstSeenReferences (length refs) (dom seen) (result # results) =
        ?new # firstSeenReferences (length refs + 1) (insert ?k (dom seen)) results"
      by simp
    show ?thesis
      unfolding step ih d l rhs by simp
  next
    case (Some i)
    with Cons.prems have "i \<noteq> 0" by metis
    with Some have step: "snd (buildContext_map (result # results) refs seen) =
        snd (buildContext_map results refs seen)"
      by (simp only: snd_buildContext_map_Cons) simp
    have "?k \<in> dom seen"
      using Some by (simp add: domIff)
    then have rhs: "firstSeenReferences (length refs) (dom seen) (result # results) =
        firstSeenReferences (length refs) (dom seen) results"
      by simp
    show ?thesis
      unfolding step rhs by (rule Cons.IH) (rule Cons.prems)
  qed
qed

lemma firstSeen_pageIds:
  "map r_pageId (firstSeenReferences n S results) =
   map Some (filter (\<lambda>k. k \<notin> S) (rev (remdups (rev (map pageIdOrId results)))))"
proof (induction results arbitrary: n S)
  case Nil
  then show ?case by simp
next
  case (Cons result results)
  let ?k = "pageIdOrId result"
  let ?fs = "rev (remdups (rev (map pageIdOrId results)))"
  have fs: "rev (remdups (rev (map pageIdOrId (result # results)))) = ?k # filter (\<lambda>x. x \<noteq> ?k) ?fs"
    using first_seen_Cons [of ?k "map pageIdOrId results"] by simp
  show ?case
  proof (cases "?k \<in> S")
    case True
    have "filter (\<lambda>k. k \<notin> S) (?k # filter (\<lambda>x. x \<noteq> ?k) ?fs) =
          filter (\<lambda>k. k \<notin> S) (filter (\<lambda>x. x \<noteq> ?k) ?fs)"
      using True by simp
    also have "\<dots> = filter (\<lambda>k. k \<notin> S) ?fs"
      unfolding filter_filter using True by (intro filter_cong) auto
    finally have r: "filter (\<lambda>k. k \<notin> S) (?k # filter (\<lambda>x. x \<noteq> ?k) ?fs) =
        filter (\<lambda>k. k \<notin> S) ?fs" .
    have l: "firstSeenReferences n S (result # results) = firstSeenReferences n S results"
      using True by simp
    show ?thesis
      unfolding fs r l by (rule Cons.IH)
  next
    case False
    have "filter (\<lambda>k. k \<notin> S) (?k # filter (\<lambda>x. x \<noteq> ?k) ?fs) =
          ?k # filter (\<lambda>k. k \<notin> S) (filter (\<lambda>x. x \<noteq> ?k) ?fs)"
      using False by simp
    also have "filter (\<lambda>k. k \<notin> S) (filter (\<lambda>x. x \<noteq> ?k) ?fs) =
          filter (\<lambda>k. k \<notin> insert ?k S) ?fs"
      unfolding filter_filter by (intro filter_cong) auto
    finally have r: "filter (\<lambda>k. k \<notin> S) (?k # filter (\<lambda>x. x \<noteq> ?k) ?fs) =
        ?k # filter (\<lambda>k. k \<notin> insert ?k S) ?fs" .
    have l: "map r_pageId (firstSeenReferences n S (result # results)) =
        Some ?k # map r_pageId (firstSeenReferences (n + 1) (insert ?k S) results)"
      using False by simp
    show ?thesis
      unfolding fs r l Cons.IH [of "n + 1" "insert ?k S"] by (simp only: list.map)
  qed
qed

lemma firstSeen_indices:
  "map r_index (firstSeenReferences n S results) =
   [n + 1 ..< n + 1 + length (firstSeenReferences n S results)]"
proof (induction results arbitrary: n S)
  case Nil
  then show ?case by simp
next
  case (Cons result results)
  show ?case
  proof (cases "pageIdOrId result \<in> S")
    case True
    with Cons.IH [of n S] show ?thesis by simp
  next
    case False
    let ?len = "length (firstSeenReferences (n + 1) (insert (pageIdOrId result) S) results)"
    have "[n + 1 ..< n + 1 + Suc ?len] = (n + 1) # [Suc (n + 1) ..< n + 1 + Suc ?len]"
      by (rule upt_conv_Cons) simp
    with False Cons.IH [of "n + 1" "insert (pageIdOrId result) S"] show ?thesis
      by simp
  qed
qed

lemma firstSeen_not_seen:
  "ref \<in> set (firstSeenReferences n S results) \<Longrightarrow> \<exists>k. r_pageId ref = Some k \<and> k \<notin> S"
proof -
  assume "ref \<in> set (firstSeenReferences n S results)"
  then have "r_pageId ref \<in> set (map r_pageId (firstSeenReferences n S results))"
    by simp
  then show ?thesis
    unfolding firstSeen_pageIds by auto
qed

lemma firstSeen_first_result:
  "ref \<in> set (firstSeenReferences n S results) \<Longrightarrow>
   \<exists>result. find (\<lambda>r. Some (pageIdOrId r) = r_pageId ref) results = Some result
     \<and> r_title ref = c_title (chunk result) \<and> r_url ref = c_sourceUrl (chunk result)
     \<and> r_score ref = Some (score result)"
proof (induction results arbitrary: n S)
  case Nil
  then show ?case by simp
next
  case (Cons result results)
  show ?case
  proof (cases "pageIdOrId result \<in> S")
    case True
    with Cons.prems have mem: "ref \<in> set (firstSeenReferences n S results)" by simp
    from firstSeen_not_seen [OF mem] True have "Some (pageIdOrId result) \<noteq> r_pageId ref"
      by auto
    with Cons.IH [OF mem] show ?thesis by simp
  next
    case False
    with Cons.prems consider
        "ref = \<lparr>r_index = n + 1, r_title = c_title (chunk result), r_url = c_sourceUrl (chunk result),
                r_score = Some (score result), r_pageId = Some (pageIdOrId result)\<rparr>"
      | "ref \<in> set (firstSeenReferences (n + 1) (insert (pageIdOrId result) S) results)"
      by auto
    then show ?thesis
    proof cases
      case 1
      then show ?thesis by simp
    next
      case 2
      from firstSeen_not_seen [OF 2] have "Some (pageIdOrId result) \<noteq> r_pageId ref"
        by auto
      with Cons.IH [OF 2] show ?thesis by simp
    qed
  qed
qed

lemma references_buildContext:
  "snd (buildContext results) = firstSeenReferences 0 {} results"
  using buildContext_map_refs [of Map.empty results "[]"]
  by (simp add: buildContext_def split_beta)

text \<open>
  Claim C3. The references of \<open>buildContext\<close> carry the page ids (chunk ids where the
  page id is absent) of the results, each once, in the order of first occurrence; their
  indices are 1 to \<open>N\<close> with \<open>N\<close> the number of distinct ids; and every reference has
  the title, URL and score of the first result with its id.
\<close>

theorem C3_references_unique_contiguous:
  "let refs = snd (buildContext results);
       keys = map pageIdOrId results
   in map r_pageId refs = map Some (rev (remdups (rev keys)))
    \<and> distinct (map r_pageId refs)
    \<and> length refs = card (set keys)
    \<and> map r_index refs = [1 ..< card (set keys) + 1]
    \<and> (\<forall>ref\<in>set refs.
          \<exists>result. find (\<lambda>r. Some (pageIdOrId r) = r_pageId ref) results = Some result
            \<and> r_title ref = c_title (chunk result) \<and> r_url ref = c_sourceUrl (chunk result)
            \<and> r_score ref = Some (score result))"
proof -
  let ?refs = "snd (buildContext results)" and ?keys = "map pageIdOrId results"
  have refs: "?refs = firstSeenReferences 0 {} results"
    by (rule references_buildContext)
  have ids: "map r_pageId ?refs = map Some (rev (remdups (rev ?keys)))"
    unfolding refs firstSeen_pageIds by simp
  have dist: "distinct (map r_pageId ?refs)"
    unfolding ids by (simp add: distinct_map)
  have "length (map r_pageId ?refs) = length (remdups (rev ?keys))"
    unfolding ids by simp
  then have len: "length ?refs = card (set ?keys)"
    by (simp add: length_remdups_card_conv)
  have idx: "map r_index ?refs = [1 ..< card (set ?keys) + 1]"
    using firstSeen_indices [of 0 "{}" results] len unfolding refs by simp
  have first: "\<forall>ref\<in>set ?refs.
          \<exists>result. find (\<lambda>r. Some (pageIdOrId r) = r_pageId ref) results = Some result
            \<and> r_title ref = c_title (chunk result) \<and> r_url ref = c_sourceUrl (chunk result)
            \<and> r_score ref = Some (score result)"
    unfolding refs using firstSeen_first_result by blast
  show ?thesis
    unfolding Let_def by (intro conjI ids dist len idx first)
qed

theorem C3_references_unique_contiguous_witness:
  "map r_index (snd (buildContext ex_results)) = [1, 2, 3]
   \<and> map r_pageId (snd (buildContext ex_results)) =
       [Some (js_str ''p1''), Some (js_str ''p2''), Some (js_str ''c4'')]
   \<and> length (snd (buildContext ex_results)) = 3"
proof -
  have keys: "map pageIdOrId ex_results = [js_str ''p1'', js_str ''p2'', js_str ''p1'', js_str ''c4'']"
    by (simp add: ex_results_def pageIdOrId_def ex_chunk_def)
  have ne: "js_str ''p1'' \<noteq> js_str ''p2''" "js_str ''p1'' \<noteq> js_str ''c4''"
    "js_str ''p2'' \<noteq> js_str ''c4''"
    by (simp_all add: js_str_def)
  have card: "card (set [js_str ''p1'', js_str ''p2'', js_str ''p1'', js_str ''c4'']) = 3"
    by (simp add: js_str_def card_insert_if)
  have upt: "[1 ..< 3 + 1] = [1, 2, 3::nat]"
    by (simp add: upt_rec)
  show ?thesis
    using C3_references_unique_contiguous [of ex_results] ne
    unfolding Let_def keys card upt by auto
qed

subsection \<open>The graph route: edge keys\<close>

lemmas ex_graph_defs = ex_pages_def ex_pageA_def ex_pageB_def ex_hit_def ex_chunk_def ex_store_def
  ex_store_failing_def ex_store_empty_def ex_query_def

lemmas graph_eval = discover_def seedNeighbor_def neighborEdge_def edgeKey_def
  getProperty_def objectPrototypeKeys_def has_def getOr_def scoreOr0_def Let_def js_str_def

lemma edgeKey_commute: "edgeKey x y = edgeKey y x"
  by (auto simp: edgeKey_def)

lemma edgeKey_min_max: "edgeKey x y = min x y @ [0x7C] @ max x y"
  by (auto simp: edgeKey_def min_def max_def)

lemma map_of_map_set: "map_of (map_set k v m) = (map_of m)(k \<mapsto> v)"
  by (induction m) (auto simp: fun_eq_iff)

lemma getOr_map_set: "getOr (map_set k v m) k' d = (if k' = k then v else getOr m k' d)"
  by (simp add: getOr_def map_of_map_set)

lemma keys_map_set: "fst ` set (map_set k v m) = insert k (fst ` set m)"
  by (induction m) auto

lemma distinct_map_set: "distinct (map fst m) \<Longrightarrow> distinct (map fst (map_set k v m))"
  by (induction m) (auto simp: keys_map_set)

lemma length_map_set: "length (map_set k v m) = (if k \<in> fst ` set m then length m else length m + 1)"
  by (induction m) auto

lemma seedNeighbor_edge:
  assumes "c_pageId (chunk r) \<noteq> v_pageId seed" and "threshold \<le> scoreOr0 r"
  shows "fst (seedNeighbor pages seed threshold r (pageEdges, nodeMap)) =
         map_set (edgeKey (v_pageId seed) (c_pageId (chunk r)))
           (getOr pageEdges (edgeKey (v_pageId seed) (c_pageId (chunk r))) 0 + scoreOr0 r) pageEdges"
  using assms by (simp add: seedNeighbor_def Let_def)

lemma seedNeighbor_nodes:
  "has (snd st) k \<Longrightarrow> has (snd (seedNeighbor pages seed threshold r st)) k"
  by (cases st) (auto simp: seedNeighbor_def Let_def has_def)

lemma neighborEdge_edge:
  assumes "c_pageId (chunk r) \<noteq> neighborId" and "has nodeMap (c_pageId (chunk r))"
      and "threshold \<le> scoreOr0 r"
  shows "neighborEdge nodeMap threshold neighborId r pageEdges =
         map_set (edgeKey neighborId (c_pageId (chunk r)))
           (getOr pageEdges (edgeKey neighborId (c_pageId (chunk r))) 0 + scoreOr0 r * 0.5) pageEdges"
  using assms by (simp add: neighborEdge_def Let_def)

text \<open>
  One neighbour found by both synthetic queries and finding the seed back: the whole
  discovery, and the one edge of the response.
\<close>

lemma seedNeighbor_own:
  assumes "c_pageId (chunk r) = n" and "n \<noteq> v_pageId seed" and "threshold \<le> scoreOr0 r"
      and "getProperty pages n = Own entry"
  shows "seedNeighbor pages seed threshold r (pageEdges, nodeMap) =
     (map_set (edgeKey (v_pageId seed) n) (getOr pageEdges (edgeKey (v_pageId seed) n) 0 + scoreOr0 r)
        pageEdges,
      if has nodeMap n then nodeMap else nodeMap @ [(n, Node (pageNode entry))])"
  using assms by (auto simp: seedNeighbor_def Let_def)

lemma discover_back_edge:
  assumes p1: "c_pageId (chunk r1) = n" and p2: "c_pageId (chunk r2) = n"
      and p3: "c_pageId (chunk r3) = v_pageId seed"
      and ne: "n \<noteq> v_pageId seed"
      and t1: "threshold \<le> scoreOr0 r1" and t2: "threshold \<le> scoreOr0 r2"
      and t3: "threshold \<le> scoreOr0 r3"
      and q1: "store (Some (v_pageTitle seed)) topK' = Inr [r1]"
      and q2: "store (Some (if truthy (v_spaceKey seed)
                            then v_pageTitle seed @ [0x20] @ the (v_spaceKey seed)
                            else v_pageTitle seed)) topK' = Inr [r2]"
      and own: "getProperty pages n = Own entry"
      and q3: "store (Some (v_pageTitle entry)) (max 3 (of_int \<lfloor>topK' / 2\<rfloor>)) = Inr [r3]"
  shows "discover store pages seed maxSeeds topK' threshold =
     (Inr ([(edgeKey (v_pageId seed) n, scoreOr0 r1 + scoreOr0 r2 + scoreOr0 r3 * 0.5)],
           [(v_pageId seed, Node (pageNode seed)), (n, Node (pageNode entry))]),
      [(Some (v_pageTitle seed), topK'),
       (Some (if truthy (v_spaceKey seed)
              then v_pageTitle seed @ [0x20] @ the (v_spaceKey seed)
              else v_pageTitle seed), topK'),
       (Some (v_pageTitle entry), max 3 (of_int \<lfloor>topK' / 2\<rfloor>))])"
proof -
  let ?key = "edgeKey (v_pageId seed) n"
  let ?q2 = "if truthy (v_spaceKey seed) then v_pageTitle seed @ [0x20] @ the (v_spaceKey seed)
             else v_pageTitle seed"
  let ?init = "[(v_pageId seed, Node (pageNode seed))]"
  let ?nm = "[(v_pageId seed, Node (pageNode seed)), (n, Node (pageNode entry))]"
  let ?k = "max 3 (of_int \<lfloor>topK' / 2\<rfloor>) :: real"
  have s1: "seedNeighbor pages seed threshold r1 ([], ?init) = ([(?key, scoreOr0 r1)], ?nm)"
    using seedNeighbor_own [OF p1 ne t1 own, of "[]" ?init] ne by (simp add: getOr_def has_def)
  have s2: "seedNeighbor pages seed threshold r2 ([(?key, scoreOr0 r1)], ?nm) =
      ([(?key, scoreOr0 r1 + scoreOr0 r2)], ?nm)"
    using seedNeighbor_own [OF p2 ne t2 own, of "[(?key, scoreOr0 r1)]" ?nm]
    by (simp add: getOr_def has_def)
  have hop1: "expandSeed store pages seed topK' threshold [v_pageTitle seed, ?q2] ([], ?init) [] =
      (Inr ([(?key, scoreOr0 r1 + scoreOr0 r2)], ?nm),
       [(Some (v_pageTitle seed), topK'), (Some ?q2, topK')])"
    unfolding expandSeed.simps q1 q2 by (simp add: s1 s2)
  have ids: "take 10 (filter (\<lambda>i. i \<noteq> v_pageId seed) (map fst ?nm)) = [n]"
    using ne by simp
  have bk: "neighborEdge ?nm threshold n r3 [(?key, scoreOr0 r1 + scoreOr0 r2)] =
      [(?key, scoreOr0 r1 + scoreOr0 r2 + scoreOr0 r3 * 0.5)]"
    using neighborEdge_edge [of r3 n ?nm threshold "[(?key, scoreOr0 r1 + scoreOr0 r2)]"] p3 ne t3
    by (simp add: has_def getOr_def edgeKey_commute [of n "v_pageId seed"])
  have hop2: "connectNeighbors store pages ?nm topK' threshold [n]
       [(?key, scoreOr0 r1 + scoreOr0 r2)] calls =
      (Inr [(?key, scoreOr0 r1 + scoreOr0 r2 + scoreOr0 r3 * 0.5)],
       calls @ [(Some (v_pageTitle entry), ?k)])" for calls
    unfolding connectNeighbors.simps own Let_def by (simp add: q3 bk)
  show ?thesis
    unfolding discover_def Let_def hop1 prod.case sum.case ids hop2 by simp
qed

lemma js_split_no_sep: "sep \<notin> set s \<Longrightarrow> js_split sep s = [s]"
  by (induction s) auto

lemma js_split_at_sep: "sep \<notin> set a \<Longrightarrow> js_split sep (a @ sep # b) = a # js_split sep b"
  by (induction a) auto

lemma entryEdge_pair:
  assumes "0x7C \<notin> set a" and "0x7C \<notin> set b"
  shows "entryEdge (a @ [0x7C] @ b, w) = \<lparr>source = a, target = Some b, weight = w\<rparr>"
  using assms by (simp add: entryEdge_def js_split_at_sep js_split_no_sep)

lemma respond_one_edge:
  assumes a: "0x7C \<notin> set a" and b: "0x7C \<notin> set b" and m: "2 \<le> maxNodes"
      and na: "n_id na = a" and nb: "n_id nb = b"
  shows "\<exists>nodes. respond maxNodes ([(edgeKey a b, w)], [(a, Node na), (b, Node nb)]) =
     Json nodes [\<lparr>source = min a b, target = Some (max a b), weight = w\<rparr>]"
proof -
  have "2 \<le> \<lfloor>maxNodes\<rfloor>" using m by linarith
  then obtain j where j: "nat \<lfloor>maxNodes\<rfloor> = Suc (Suc j)"
    by (metis nat_2 nat_mono numeral_2_eq_2 Suc_le_D Suc_le_mono)
  have "1 \<le> \<lfloor>max 20 (maxNodes * 2)\<rfloor>" by (simp add: le_floor_iff le_max_iff_disj)
  then obtain c where c: "nat \<lfloor>max 20 (maxNodes * 2)\<rfloor> = Suc c"
    by (metis nat_1 nat_mono One_nat_def Suc_le_D)
  have mm: "0x7C \<notin> set (min a b)" "0x7C \<notin> set (max a b)"
    using a b by (simp_all add: min_def max_def)
  have e: "entryEdge (edgeKey a b, w) = \<lparr>source = min a b, target = Some (max a b), weight = w\<rparr>"
    unfolding edgeKey_min_max using mm by (rule entryEdge_pair)
  have al: "min a b = a \<or> min a b = b" "max a b = a \<or> max a b = b"
    by (auto simp: min_def max_def)
  show ?thesis
    unfolding respond_def Let_def using al by (auto simp: j c e na nb)
qed

text \<open>
  Claim C4. The key of an edge is the smaller page id, a bar, the larger page id, whichever
  of the two ids the probe started from. Two synthetic queries that return the same
  neighbour with scores at or above the threshold leave one entry whose weight is the sum
  of the scores (0.9 for 0.5 and 0.4), and a second-hop hit from that neighbour back to the
  seed adds half its score to the same entry: contributions in both directions make one
  entry, not two. So it is in a build: when the store answers the two synthetic queries
  with such hits on one neighbour and the query of the neighbour's title with a hit on
  the seed, discovery returns the edge map with that single entry, of weight
  \<open>s1 + s2 + s3 * 0.5\<close>, after three search calls, and the response of the route has
  that one edge between the smaller and the larger id.
\<close>

theorem C4_edge_keys_canonical:
  assumes "c_pageId (chunk r1) = n" and "c_pageId (chunk r2) = n"
      and "c_pageId (chunk r3) = v_pageId seed"
      and "n \<noteq> v_pageId seed"
      and "threshold \<le> scoreOr0 r1" and "threshold \<le> scoreOr0 r2" and "threshold \<le> scoreOr0 r3"
      and "has nodeMap (v_pageId seed)"
  shows "edgeKey (v_pageId seed) n = edgeKey n (v_pageId seed)
       \<and> edgeKey (v_pageId seed) n = min (v_pageId seed) n @ [0x7C] @ max (v_pageId seed) n
       \<and> (\<exists>nodeMap'.
            fold (seedNeighbor pages seed threshold) [r1, r2] ([], nodeMap) =
              ([(edgeKey (v_pageId seed) n, scoreOr0 r1 + scoreOr0 r2)], nodeMap')
          \<and> has nodeMap' (v_pageId seed)
          \<and> fold (neighborEdge nodeMap' threshold n) [r3]
               [(edgeKey (v_pageId seed) n, scoreOr0 r1 + scoreOr0 r2)] =
              [(edgeKey (v_pageId seed) n, scoreOr0 r1 + scoreOr0 r2 + scoreOr0 r3 * 0.5)])
       \<and> (\<forall>pageEdges.
            (let pageEdges' = neighborEdge nodeMap threshold n r3
                                (fst (seedNeighbor pages seed threshold r1 (pageEdges, nodeMap)))
             in map_of pageEdges' (edgeKey (v_pageId seed) n) =
                  Some (getOr pageEdges (edgeKey (v_pageId seed) n) 0 + scoreOr0 r1 + scoreOr0 r3 * 0.5)
              \<and> length pageEdges' \<le> length pageEdges + 1
              \<and> (distinct (map fst pageEdges) \<longrightarrow> distinct (map fst pageEdges'))))
       \<and> (\<forall>store entry maxSeeds topK'.
              store (Some (v_pageTitle seed)) topK' = Inr [r1]
            \<and> store (Some (if truthy (v_spaceKey seed)
                            then v_pageTitle seed @ [0x20] @ the (v_spaceKey seed)
                            else v_pageTitle seed)) topK' = Inr [r2]
            \<and> getProperty pages n = Own entry
            \<and> store (Some (v_pageTitle entry)) (max 3 (of_int \<lfloor>topK' / 2\<rfloor>)) = Inr [r3]
            \<longrightarrow>
              discover store pages seed maxSeeds topK' threshold =
                (Inr ([(edgeKey (v_pageId seed) n, scoreOr0 r1 + scoreOr0 r2 + scoreOr0 r3 * 0.5)],
                      [(v_pageId seed, Node (pageNode seed)), (n, Node (pageNode entry))]),
                 [(Some (v_pageTitle seed), topK'),
                  (Some (if truthy (v_spaceKey seed)
                         then v_pageTitle seed @ [0x20] @ the (v_spaceKey seed)
                         else v_pageTitle seed), topK'),
                  (Some (v_pageTitle entry), max 3 (of_int \<lfloor>topK' / 2\<rfloor>))])
            \<and> (\<forall>query.
                   q_seedPageId query = Some (v_pageId seed) \<and> v_pageId seed \<noteq> []
                 \<and> getProperty pages (v_pageId seed) = Own seed
                 \<and> parseNumber (q_topK query) 5 = topK'
                 \<and> parseFloatInRange (q_threshold query) 0.25 0 1 = threshold
                 \<and> 2 \<le> parseNumber (q_maxNodes query) 50
                 \<and> 0x7C \<notin> set (v_pageId seed) \<and> 0x7C \<notin> set n \<and> v_pageId entry = n
                 \<longrightarrow>
                   (\<exists>nodes calls. GET query pages (Inr store) =
                      (Json nodes
                         [\<lparr>source = min (v_pageId seed) n, target = Some (max (v_pageId seed) n),
                           weight = scoreOr0 r1 + scoreOr0 r2 + scoreOr0 r3 * 0.5\<rparr>],
                       calls))))"
proof -
  let ?key = "edgeKey (v_pageId seed) n"
  let ?s = "seedNeighbor pages seed threshold"
  let ?w = "scoreOr0 r1 + scoreOr0 r2 + scoreOr0 r3 * 0.5"
  let ?q2 = "if truthy (v_spaceKey seed) then v_pageTitle seed @ [0x20] @ the (v_spaceKey seed)
             else v_pageTitle seed"
  have k: "edgeKey n (v_pageId seed) = ?key"
    by (rule edgeKey_commute)
  have first: "fst (?s r (pe, nm)) = map_set ?key (getOr pe ?key 0 + scoreOr0 r) pe"
    if "c_pageId (chunk r) = n" "threshold \<le> scoreOr0 r" for r pe nm
    using seedNeighbor_edge [of r seed threshold pages pe nm] that assms(4) by simp
  have second: "neighborEdge nm threshold n r3 pe = map_set ?key (getOr pe ?key 0 + scoreOr0 r3 * 0.5) pe"
    if "has nm (v_pageId seed)" for nm pe
    using neighborEdge_edge [of r3 n nm threshold pe] that assms(3,4,7) by (simp add: k)
  obtain pe1 nm1 where s1: "?s r1 ([], nodeMap) = (pe1, nm1)"
    by (cases "?s r1 ([], nodeMap)")
  obtain pe2 nm2 where s2: "?s r2 (pe1, nm1) = (pe2, nm2)"
    by (cases "?s r2 (pe1, nm1)")
  have pe1: "pe1 = [(?key, scoreOr0 r1)]"
    using first [OF assms(1,5), of "[]" nodeMap] s1 by (simp add: getOr_def)
  have pe2: "pe2 = [(?key, scoreOr0 r1 + scoreOr0 r2)]"
    using first [OF assms(2,6), of pe1 nm1] s2 by (simp add: pe1 getOr_def)
  have "has nm1 (v_pageId seed)"
    using seedNeighbor_nodes [of "([], nodeMap)" "v_pageId seed" pages seed threshold r1] assms(8) s1
    by simp
  then have nm2: "has nm2 (v_pageId seed)"
    using seedNeighbor_nodes [of "(pe1, nm1)" "v_pageId seed" pages seed threshold r2] s2
    by simp
  have hop1: "fold ?s [r1, r2] ([], nodeMap) = ([(?key, scoreOr0 r1 + scoreOr0 r2)], nm2)"
    by (simp add: s1 s2 pe2)
  have hop2: "fold (neighborEdge nm2 threshold n) [r3] [(?key, scoreOr0 r1 + scoreOr0 r2)] =
      [(?key, scoreOr0 r1 + scoreOr0 r2 + scoreOr0 r3 * 0.5)]"
    by (simp add: second [OF nm2] getOr_def)
  have both: "map_of (neighborEdge nodeMap threshold n r3 (fst (?s r1 (pe, nodeMap)))) ?key =
        Some (getOr pe ?key 0 + scoreOr0 r1 + scoreOr0 r3 * 0.5)
      \<and> length (neighborEdge nodeMap threshold n r3 (fst (?s r1 (pe, nodeMap)))) \<le> length pe + 1
      \<and> (distinct (map fst pe) \<longrightarrow>
           distinct (map fst (neighborEdge nodeMap threshold n r3 (fst (?s r1 (pe, nodeMap))))))" for pe
    unfolding first [OF assms(1,5)] second [OF assms(8)]
    by (simp add: map_of_map_set getOr_map_set length_map_set keys_map_set distinct_map_set)
  have build: "discover store pages seed maxSeeds topK' threshold =
        (Inr ([(?key, ?w)], [(v_pageId seed, Node (pageNode seed)), (n, Node (pageNode entry))]),
         [(Some (v_pageTitle seed), topK'), (Some ?q2, topK'),
          (Some (v_pageTitle entry), max 3 (of_int \<lfloor>topK' / 2\<rfloor>))])"
    if "store (Some (v_pageTitle seed)) topK' = Inr [r1]"
       "store (Some ?q2) topK' = Inr [r2]"
       "getProperty pages n = Own entry"
       "store (Some (v_pageTitle entry)) (max 3 (of_int \<lfloor>topK' / 2\<rfloor>)) = Inr [r3]"
    for store entry maxSeeds topK'
    using assms(1-7) that by (rule discover_back_edge)
  have route: "\<exists>nodes calls. GET query pages (Inr store) =
        (Json nodes [\<lparr>source = min (v_pageId seed) n, target = Some (max (v_pageId seed) n),
                      weight = ?w\<rparr>], calls)"
    if d: "discover store pages seed (parseNumber (q_maxSeeds query) 5) topK' threshold =
             (Inr ([(?key, ?w)], [(v_pageId seed, Node (pageNode seed)), (n, Node (pageNode entry))]),
              calls)"
       and q: "q_seedPageId query = Some (v_pageId seed)" "v_pageId seed \<noteq> []"
         "getProperty pages (v_pageId seed) = Own seed"
         "parseNumber (q_topK query) 5 = topK'"
         "parseFloatInRange (q_threshold query) 0.25 0 1 = threshold"
       and m: "2 \<le> parseNumber (q_maxNodes query) 50"
       and b: "0x7C \<notin> set (v_pageId seed)" "0x7C \<notin> set n" "v_pageId entry = n"
    for store entry topK' query calls
  proof -
    have ids: "n_id (pageNode seed) = v_pageId seed" "n_id (pageNode entry) = n"
      by (simp_all add: pageNode_def b(3))
    from respond_one_edge [OF b(1,2) m ids, of ?w]
    obtain nodes where r: "respond (parseNumber (q_maxNodes query) 50)
        ([(?key, ?w)], [(v_pageId seed, Node (pageNode seed)), (n, Node (pageNode entry))]) =
        Json nodes [\<lparr>source = min (v_pageId seed) n, target = Some (max (v_pageId seed) n),
                     weight = ?w\<rparr>]"
      by blast
    have g: "GET query pages (Inr store) =
        (case discover store pages seed (parseNumber (q_maxSeeds query) 5) topK' threshold of
           (Inl message, calls) \<Rightarrow> (ErrorJson message 500, calls)
         | (Inr st, calls) \<Rightarrow> (respond (parseNumber (q_maxNodes query) 50) st, calls))"
      unfolding GET_def Let_def q(4,5) by (simp add: q(1,2,3))
    have "GET query pages (Inr store) =
        (Json nodes [\<lparr>source = min (v_pageId seed) n, target = Some (max (v_pageId seed) n),
                      weight = ?w\<rparr>], calls)"
      unfolding g d prod.case sum.case r by (rule refl)
    then show ?thesis by blast
  qed
  have whole: "discover store pages seed maxSeeds topK' threshold =
        (Inr ([(?key, ?w)], [(v_pageId seed, Node (pageNode seed)), (n, Node (pageNode entry))]),
         [(Some (v_pageTitle seed), topK'), (Some ?q2, topK'),
          (Some (v_pageTitle entry), max 3 (of_int \<lfloor>topK' / 2\<rfloor>))])
      \<and> (\<forall>query.
             q_seedPageId query = Some (v_pageId seed) \<and> v_pageId seed \<noteq> []
           \<and> getProperty pages (v_pageId seed) = Own seed
           \<and> parseNumber (q_topK query) 5 = topK'
           \<and> parseFloatInRange (q_threshold query) 0.25 0 1 = threshold
           \<and> 2 \<le> parseNumber (q_maxNodes query) 50
           \<and> 0x7C \<notin> set (v_pageId seed) \<and> 0x7C \<notin> set n \<and> v_pageId entry = n
           \<longrightarrow>
             (\<exists>nodes calls. GET query pages (Inr store) =
                (Json nodes [\<lparr>source = min (v_pageId seed) n, target = Some (max (v_pageId seed) n),
                              weight = ?w\<rparr>], calls)))"
    if h: "store (Some (v_pageTitle seed)) topK' = Inr [r1]"
       "store (Some ?q2) topK' = Inr [r2]"
       "getProperty pages n = Own entry"
       "store (Some (v_pageTitle entry)) (max 3 (of_int \<lfloor>topK' / 2\<rfloor>)) = Inr [r3]"
    for store entry maxSeeds topK'
  proof (intro conjI allI impI)
    show "discover store pages seed maxSeeds topK' threshold =
        (Inr ([(?key, ?w)], [(v_pageId seed, Node (pageNode seed)), (n, Node (pageNode entry))]),
         [(Some (v_pageTitle seed), topK'), (Some ?q2, topK'),
          (Some (v_pageTitle entry), max 3 (of_int \<lfloor>topK' / 2\<rfloor>))])"
      using h by (rule build)
  next
    fix query :: GraphQuery
    assume a: "q_seedPageId query = Some (v_pageId seed) \<and> v_pageId seed \<noteq> []
           \<and> getProperty pages (v_pageId seed) = Own seed
           \<and> parseNumber (q_topK query) 5 = topK'
           \<and> parseFloatInRange (q_threshold query) 0.25 0 1 = threshold
           \<and> 2 \<le> parseNumber (q_maxNodes query) 50
           \<and> 0x7C \<notin> set (v_pageId seed) \<and> 0x7C \<notin> set n \<and> v_pageId entry = n"
    show "\<exists>nodes calls. GET query pages (Inr store) =
                (Json nodes [\<lparr>source = min (v_pageId seed) n, target = Some (max (v_pageId seed) n),
                              weight = ?w\<rparr>], calls)"
      by (rule route [OF build [OF h, of "parseNumber (q_maxSeeds query) 5"]
            a [THEN conjunct1]
            a [THEN conjunct2, THEN conjunct1]
            a [THEN conjunct2, THEN conjunct2, THEN conjunct1]
            a [THEN conjunct2, THEN conjunct2, THEN conjunct2, THEN conjunct1]
            a [THEN conjunct2, THEN conjunct2, THEN conjunct2, THEN conjunct2, THEN conjunct1]
            a [THEN conjunct2, THEN conjunct2, THEN conjunct2, THEN conjunct2, THEN conjunct2,
               THEN conjunct1]
            a [THEN conjunct2, THEN conjunct2, THEN conjunct2, THEN conjunct2, THEN conjunct2,
               THEN conjunct2, THEN conjunct1]
            a [THEN conjunct2, THEN conjunct2, THEN conjunct2, THEN conjunct2, THEN conjunct2,
               THEN conjunct2, THEN conjunct2, THEN conjunct1]
            a [THEN conjunct2, THEN conjunct2, THEN conjunct2, THEN conjunct2, THEN conjunct2,
               THEN conjunct2, THEN conjunct2, THEN conjunct2]])
  qed
  have old: "edgeKey (v_pageId seed) n = edgeKey n (v_pageId seed)
       \<and> edgeKey (v_pageId seed) n = min (v_pageId seed) n @ [0x7C] @ max (v_pageId seed) n
       \<and> (\<exists>nodeMap'.
            fold (seedNeighbor pages seed threshold) [r1, r2] ([], nodeMap) =
              ([(edgeKey (v_pageId seed) n, scoreOr0 r1 + scoreOr0 r2)], nodeMap')
          \<and> has nodeMap' (v_pageId seed)
          \<and> fold (neighborEdge nodeMap' threshold n) [r3]
               [(edgeKey (v_pageId seed) n, scoreOr0 r1 + scoreOr0 r2)] =
              [(edgeKey (v_pageId seed) n, scoreOr0 r1 + scoreOr0 r2 + scoreOr0 r3 * 0.5)])
       \<and> (\<forall>pageEdges.
            (let pageEdges' = neighborEdge nodeMap threshold n r3
                                (fst (seedNeighbor pages seed threshold r1 (pageEdges, nodeMap)))
             in map_of pageEdges' (edgeKey (v_pageId seed) n) =
                  Some (getOr pageEdges (edgeKey (v_pageId seed) n) 0 + scoreOr0 r1 + scoreOr0 r3 * 0.5)
              \<and> length pageEdges' \<le> length pageEdges + 1
              \<and> (distinct (map fst pageEdges) \<longrightarrow> distinct (map fst pageEdges'))))"
    unfolding Let_def using k edgeKey_min_max [of "v_pageId seed" n] hop1 nm2 hop2 both
    by metis
  have new: "\<forall>store entry maxSeeds topK'.
              store (Some (v_pageTitle seed)) topK' = Inr [r1]
            \<and> store (Some ?q2) topK' = Inr [r2]
            \<and> getProperty pages n = Own entry
            \<and> store (Some (v_pageTitle entry)) (max 3 (of_int \<lfloor>topK' / 2\<rfloor>)) = Inr [r3]
            \<longrightarrow>
              discover store pages seed maxSeeds topK' threshold =
                (Inr ([(?key, ?w)], [(v_pageId seed, Node (pageNode seed)), (n, Node (pageNode entry))]),
                 [(Some (v_pageTitle seed), topK'), (Some ?q2, topK'),
                  (Some (v_pageTitle entry), max 3 (of_int \<lfloor>topK' / 2\<rfloor>))])
            \<and> (\<forall>query.
                   q_seedPageId query = Some (v_pageId seed) \<and> v_pageId seed \<noteq> []
                 \<and> getProperty pages (v_pageId seed) = Own seed
                 \<and> parseNumber (q_topK query) 5 = topK'
                 \<and> parseFloatInRange (q_threshold query) 0.25 0 1 = threshold
                 \<and> 2 \<le> parseNumber (q_maxNodes query) 50
                 \<and> 0x7C \<notin> set (v_pageId seed) \<and> 0x7C \<notin> set n \<and> v_pageId entry = n
                 \<longrightarrow>
                   (\<exists>nodes calls. GET query pages (Inr store) =
                      (Json nodes
                         [\<lparr>source = min (v_pageId seed) n, target = Some (max (v_pageId seed) n),
                           weight = ?w\<rparr>],
                       calls)))"
  proof (intro allI impI)
    fix store :: GraphSearch and entry :: VectorCacheEntry and maxSeeds topK' :: real
    assume h: "store (Some (v_pageTitle seed)) topK' = Inr [r1]
            \<and> store (Some ?q2) topK' = Inr [r2]
            \<and> getProperty pages n = Own entry
            \<and> store (Some (v_pageTitle entry)) (max 3 (of_int \<lfloor>topK' / 2\<rfloor>)) = Inr [r3]"
    show "discover store pages seed maxSeeds topK' threshold =
                (Inr ([(?key, ?w)], [(v_pageId seed, Node (pageNode seed)), (n, Node (pageNode entry))]),
                 [(Some (v_pageTitle seed), topK'), (Some ?q2, topK'),
                  (Some (v_pageTitle entry), max 3 (of_int \<lfloor>topK' / 2\<rfloor>))])
            \<and> (\<forall>query.
                   q_seedPageId query = Some (v_pageId seed) \<and> v_pageId seed \<noteq> []
                 \<and> getProperty pages (v_pageId seed) = Own seed
                 \<and> parseNumber (q_topK query) 5 = topK'
                 \<and> parseFloatInRange (q_threshold query) 0.25 0 1 = threshold
                 \<and> 2 \<le> parseNumber (q_maxNodes query) 50
                 \<and> 0x7C \<notin> set (v_pageId seed) \<and> 0x7C \<notin> set n \<and> v_pageId entry = n
                 \<longrightarrow>
                   (\<exists>nodes calls. GET query pages (Inr store) =
                      (Json nodes
                         [\<lparr>source = min (v_pageId seed) n, target = Some (max (v_pageId seed) n),
                           weight = ?w\<rparr>],
                       calls)))"
      by (rule whole [OF h [THEN conjunct1] h [THEN conjunct2, THEN conjunct1]
            h [THEN conjunct2, THEN conjunct2, THEN conjunct1]
            h [THEN conjunct2, THEN conjunct2, THEN conjunct2]])
  qed
  note c1 = old [THEN conjunct1]
  note c2 = old [THEN conjunct2, THEN conjunct1]
  note c3 = old [THEN conjunct2, THEN conjunct2, THEN conjunct1]
  note c4 = old [THEN conjunct2, THEN conjunct2, THEN conjunct2]
  show ?thesis
    by (intro conjI) (rule c1, rule c2, rule c3, rule c4, rule new)
qed

text \<open>
  For a whole build: the keys of the edge map that discovery returns are distinct, so a
  pair of pages has one entry however many probes found it, from either side.
\<close>

lemma seedNeighbor_distinct:
  "distinct (map fst (fst st)) \<Longrightarrow> distinct (map fst (fst (seedNeighbor pages seed threshold r st)))"
  by (cases st) (simp add: seedNeighbor_def Let_def distinct_map_set)

lemma fold_seedNeighbor_distinct:
  "distinct (map fst (fst st)) \<Longrightarrow>
   distinct (map fst (fst (fold (seedNeighbor pages seed threshold) results st)))"
  by (induction results arbitrary: st) (simp_all add: seedNeighbor_distinct)

lemma expandSeed_distinct:
  assumes "expandSeed store pages seed topK' threshold qs st calls = (Inr st', calls')"
      and "distinct (map fst (fst st))"
  shows "distinct (map fst (fst st'))"
  using assms
proof (induction qs arbitrary: st calls)
  case Nil
  then show ?case by simp
next
  case (Cons q qs)
  show ?case
  proof (cases "store (Some q) topK'")
    case (Inl message)
    with Cons.prems show ?thesis by simp
  next
    case (Inr results)
    with Cons.prems(1)
    have "expandSeed store pages seed topK' threshold qs
            (fold (seedNeighbor pages seed threshold) results st) (calls @ [(Some q, topK')]) = (Inr st', calls')"
      by simp
    from Cons.IH [OF this fold_seedNeighbor_distinct [OF Cons.prems(2)]] show ?thesis .
  qed
qed

lemma fold_neighborEdge_distinct:
  "distinct (map fst pageEdges) \<Longrightarrow>
   distinct (map fst (fold (neighborEdge nodeMap threshold neighborId) results pageEdges))"
  by (induction results arbitrary: pageEdges) (simp_all add: neighborEdge_def Let_def distinct_map_set)

lemma connectNeighbors_distinct:
  assumes "connectNeighbors store pages nodeMap topK' threshold ids pageEdges calls = (Inr pageEdges', calls')"
      and "distinct (map fst pageEdges)"
  shows "distinct (map fst pageEdges')"
  using assms
proof (induction ids arbitrary: pageEdges calls)
  case Nil
  then show ?case by simp
next
  case (Cons neighborId ids)
  show ?case
  proof (cases "getProperty pages neighborId = Missing")
    case True
    with Cons.prems(1)
    have "connectNeighbors store pages nodeMap topK' threshold ids pageEdges calls = (Inr pageEdges', calls')"
      by simp
    from Cons.IH [OF this Cons.prems(2)] show ?thesis .
  next
    case False
    let ?q = "case getProperty pages neighborId of
                Own entry \<Rightarrow> Some (v_pageTitle entry) | _ \<Rightarrow> None"
    let ?k = "max 3 (of_int \<lfloor>topK' / 2\<rfloor>) :: real"
    have unfold: "connectNeighbors store pages nodeMap topK' threshold (neighborId # ids) pageEdges calls =
        (case store ?q ?k of
           Inl message \<Rightarrow> (Inl message, calls @ [(?q, ?k)])
         | Inr results \<Rightarrow>
             connectNeighbors store pages nodeMap topK' threshold ids
               (fold (neighborEdge nodeMap threshold neighborId) results pageEdges)
               (calls @ [(?q, ?k)]))"
      using False by (cases "getProperty pages neighborId") (simp_all add: Let_def split: sum.splits)
    show ?thesis
    proof (cases "store ?q ?k")
      case (Inl message)
      with Cons.prems(1) unfold show ?thesis by simp
    next
      case (Inr results)
      with Cons.prems(1) unfold
      have "connectNeighbors store pages nodeMap topK' threshold ids
              (fold (neighborEdge nodeMap threshold neighborId) results pageEdges)
              (calls @ [(?q, ?k)]) = (Inr pageEdges', calls')"
        by simp
      from Cons.IH [OF this fold_neighborEdge_distinct [OF Cons.prems(2)]] show ?thesis .
    qed
  qed
qed

lemma discover_keys_distinct:
  assumes "discover store pages seed maxSeeds topK' threshold = (Inr (pageEdges, nodeMap), calls)"
  shows "distinct (map fst pageEdges)"
proof -
  let ?qs = "[v_pageTitle seed,
             if truthy (v_spaceKey seed) then v_pageTitle seed @ [0x20] @ the (v_spaceKey seed)
             else v_pageTitle seed]"
  obtain r1 c1 where e: "expandSeed store pages seed topK' threshold ?qs
      ([], [(v_pageId seed, Node (pageNode seed))]) [] = (r1, c1)"
    by (cases "expandSeed store pages seed topK' threshold ?qs
      ([], [(v_pageId seed, Node (pageNode seed))]) []")
  show ?thesis
  proof (cases r1)
    case (Inl message)
    with assms e show ?thesis by (simp add: discover_def Let_def)
  next
    case (Inr st)
    obtain pe nm where st: "st = (pe, nm)" by (cases st)
    have d1: "distinct (map fst pe)"
      using expandSeed_distinct [OF e [unfolded Inr]] st by simp
    let ?ids = "take 10 (filter (\<lambda>i. i \<noteq> v_pageId seed) (map fst nm))"
    obtain r2 c2 where cn: "connectNeighbors store pages nm topK' threshold ?ids pe c1 = (r2, c2)"
      by (cases "connectNeighbors store pages nm topK' threshold ?ids pe c1")
    have "r2 = Inr pageEdges"
      using assms e Inr st cn by (simp add: discover_def Let_def split: sum.splits)
    with cn connectNeighbors_distinct d1 show ?thesis by blast
  qed
qed

subsection \<open>The graph route: failing probes and unknown seeds\<close>

lemma ex_GET_failing:
  "GET (ex_query (js_str ''A'')) ex_pages (Inr ex_store_failing) =
     (ErrorJson (js_str ''upstream timeout'') 500,
      [(Some (js_str ''Alpha''), 5), (Some (js_str ''Alpha DOC''), 5)])"
  by (simp add: GET_def ex_graph_defs graph_eval parseNumber_def parseFloatInRange_def)

text \<open>
  Against claim C6 as stated: with a store that answers the first synthetic query and
  rejects the second, the response is the error with status 500, not a partial graph.
\<close>

theorem C6_failed_probe_counterexample:
  "GET (ex_query (js_str ''A'')) ex_pages (Inr ex_store_failing) =
     (ErrorJson (js_str ''upstream timeout'') 500,
      [(Some (js_str ''Alpha''), 5), (Some (js_str ''Alpha DOC''), 5)])"
  by (rule ex_GET_failing)

lemma expandSeed_calls:
  assumes "\<forall>c\<in>set calls. \<not> isl (store (fst c) (snd c))"
      and "expandSeed store pages seed topK' threshold qs st calls = (res, calls')"
  shows "(\<forall>c\<in>set (butlast calls'). \<not> isl (store (fst c) (snd c)))
       \<and> (case res of
             Inl message \<Rightarrow> calls' \<noteq> [] \<and> store (fst (last calls')) (snd (last calls')) = Inl message
           | Inr st' \<Rightarrow> \<forall>c\<in>set calls'. \<not> isl (store (fst c) (snd c)))"
  using assms
proof (induction qs arbitrary: st calls)
  case Nil
  then show ?case by (auto dest: in_set_butlastD)
next
  case (Cons q qs)
  show ?case
  proof (cases "store (Some q) topK'")
    case (Inl message)
    with Cons.prems show ?thesis by (auto simp: butlast_append)
  next
    case (Inr results)
    let ?calls = "calls @ [(Some q, topK')]"
    have ok: "\<forall>c\<in>set ?calls. \<not> isl (store (fst c) (snd c))"
      using Cons.prems(1) Inr by simp
    have "expandSeed store pages seed topK' threshold qs
            (fold (seedNeighbor pages seed threshold) results st) ?calls = (res, calls')"
      using Cons.prems(2) Inr by simp
    from Cons.IH [OF ok this] show ?thesis .
  qed
qed

lemma connectNeighbors_calls:
  assumes "\<forall>c\<in>set calls. \<not> isl (store (fst c) (snd c))"
      and "connectNeighbors store pages nodeMap topK' threshold ids pageEdges calls = (res, calls')"
  shows "(\<forall>c\<in>set (butlast calls'). \<not> isl (store (fst c) (snd c)))
       \<and> (case res of
             Inl message \<Rightarrow> calls' \<noteq> [] \<and> store (fst (last calls')) (snd (last calls')) = Inl message
           | Inr pageEdges' \<Rightarrow> \<forall>c\<in>set calls'. \<not> isl (store (fst c) (snd c)))"
  using assms
proof (induction ids arbitrary: pageEdges calls)
  case Nil
  then show ?case by (auto dest: in_set_butlastD)
next
  case (Cons neighborId ids)
  show ?case
  proof (cases "getProperty pages neighborId = Missing")
    case True
    with Cons.prems(2)
    have "connectNeighbors store pages nodeMap topK' threshold ids pageEdges calls = (res, calls')"
      by simp
    from Cons.IH [OF Cons.prems(1) this] show ?thesis .
  next
    case False
    let ?q = "case getProperty pages neighborId of
                Own entry \<Rightarrow> Some (v_pageTitle entry) | _ \<Rightarrow> None"
    let ?k = "max 3 (of_int \<lfloor>topK' / 2\<rfloor>) :: real"
    have unfold: "connectNeighbors store pages nodeMap topK' threshold (neighborId # ids) pageEdges calls =
        (case store ?q ?k of
           Inl message \<Rightarrow> (Inl message, calls @ [(?q, ?k)])
         | Inr results \<Rightarrow>
             connectNeighbors store pages nodeMap topK' threshold ids
               (fold (neighborEdge nodeMap threshold neighborId) results pageEdges)
               (calls @ [(?q, ?k)]))"
      using False by (cases "getProperty pages neighborId") (simp_all add: Let_def split: sum.splits)
    show ?thesis
    proof (cases "store ?q ?k")
      case (Inl message)
      with Cons.prems unfold show ?thesis by (auto simp: butlast_append)
    next
      case (Inr results)
      let ?calls = "calls @ [(?q, ?k)]"
      have ok: "\<forall>c\<in>set ?calls. \<not> isl (store (fst c) (snd c))"
        using Cons.prems(1) Inr by simp
      have "connectNeighbors store pages nodeMap topK' threshold ids
              (fold (neighborEdge nodeMap threshold neighborId) results pageEdges) ?calls = (res, calls')"
        using Cons.prems(2) Inr unfold by simp
      from Cons.IH [OF ok this] show ?thesis .
    qed
  qed
qed

lemma discover_calls:
  assumes "discover store pages seed maxSeeds topK' threshold = (res, calls)"
  shows "(\<forall>c\<in>set (butlast calls). \<not> isl (store (fst c) (snd c)))
       \<and> (case res of
             Inl message \<Rightarrow> calls \<noteq> [] \<and> store (fst (last calls)) (snd (last calls)) = Inl message
           | Inr st \<Rightarrow> \<forall>c\<in>set calls. \<not> isl (store (fst c) (snd c)))"
proof -
  let ?qs = "[v_pageTitle seed,
             if truthy (v_spaceKey seed) then v_pageTitle seed @ [0x20] @ the (v_spaceKey seed)
             else v_pageTitle seed]"
  obtain r1 c1 where e: "expandSeed store pages seed topK' threshold ?qs
      ([], [(v_pageId seed, Node (pageNode seed))]) [] = (r1, c1)"
    by (cases "expandSeed store pages seed topK' threshold ?qs
      ([], [(v_pageId seed, Node (pageNode seed))]) []")
  have e1: "(\<forall>c\<in>set (butlast c1). \<not> isl (store (fst c) (snd c)))
       \<and> (case r1 of
             Inl message \<Rightarrow> c1 \<noteq> [] \<and> store (fst (last c1)) (snd (last c1)) = Inl message
           | Inr st' \<Rightarrow> \<forall>c\<in>set c1. \<not> isl (store (fst c) (snd c)))"
    by (rule expandSeed_calls [OF _ e]) simp
  show ?thesis
  proof (cases r1)
    case (Inl message)
    with assms e have "res = Inl message" "calls = c1"
      by (simp_all add: discover_def Let_def)
    with e1 Inl show ?thesis by simp
  next
    case (Inr st)
    obtain pageEdges nodeMap where st: "st = (pageEdges, nodeMap)" by (cases st)
    let ?ids = "take 10 (filter (\<lambda>i. i \<noteq> v_pageId seed) (map fst nodeMap))"
    obtain r2 c2 where c: "connectNeighbors store pages nodeMap topK' threshold ?ids pageEdges c1 = (r2, c2)"
      by (cases "connectNeighbors store pages nodeMap topK' threshold ?ids pageEdges c1")
    have ok: "\<forall>c\<in>set c1. \<not> isl (store (fst c) (snd c))"
      using e1 Inr by simp
    note c2 = connectNeighbors_calls [OF ok c]
    have "calls = c2 \<and> (case r2 of Inl message \<Rightarrow> res = Inl message
                          | Inr pageEdges' \<Rightarrow> res = Inr (pageEdges', nodeMap))"
      using assms e Inr st c by (simp add: discover_def Let_def split: sum.splits)
    with c2 show ?thesis
      by (cases r2) auto
  qed
qed

text \<open>
  Claim C6, as amended. In a seeded build every probe before the last one made has
  succeeded; the response is an error with status 500 exactly when a probe failed, that
  probe is the last call made and the error carries its message; a graph is returned only
  when every probe succeeded.
\<close>

theorem C6_failed_probe_fails_request:
  assumes "q_seedPageId query = Some seedPageId" and "seedPageId \<noteq> []"
      and "getProperty pages seedPageId = Own seed"
      and "GET query pages (Inr store) = (resp, calls)"
  shows "(\<forall>c\<in>set (butlast calls). \<not> isl (store (fst c) (snd c)))
       \<and> ((\<exists>c\<in>set calls. isl (store (fst c) (snd c))) \<longleftrightarrow> (\<exists>message. resp = ErrorJson message 500))
       \<and> (\<forall>message status. resp = ErrorJson message status \<longrightarrow>
            status = 500 \<and> calls \<noteq> [] \<and> store (fst (last calls)) (snd (last calls)) = Inl message)
       \<and> ((\<forall>c\<in>set calls. \<not> isl (store (fst c) (snd c))) \<longrightarrow> (\<exists>nodes edges. resp = Json nodes edges))"
proof -
  let ?d = "discover store pages seed (parseNumber (q_maxSeeds query) 5)
              (parseNumber (q_topK query) 5) (parseFloatInRange (q_threshold query) 0.25 0 1)"
  obtain res c where d: "?d = (res, c)" by (cases ?d)
  have get: "GET query pages (Inr store) =
      (case res of Inl message \<Rightarrow> (ErrorJson message 500, c)
       | Inr st \<Rightarrow> (respond (parseNumber (q_maxNodes query) 50) st, c))"
    using assms(1-3) d by (simp add: GET_def Let_def)
  note dc = discover_calls [OF d]
  show ?thesis
  proof (cases res)
    case (Inl message)
    with get assms(4) have r: "resp = ErrorJson message 500" "calls = c" by simp_all
    from dc Inl have l: "c \<noteq> []" "store (fst (last c)) (snd (last c)) = Inl message"
      and b: "\<forall>c\<in>set (butlast c). \<not> isl (store (fst c) (snd c))" by simp_all
    from l have "last c \<in> set c" "isl (store (fst (last c)) (snd (last c)))" by simp_all
    then have "\<exists>x\<in>set c. isl (store (fst x) (snd x))" by blast
    with r l b show ?thesis by auto
  next
    case (Inr st)
    with get assms(4) have r: "resp = respond (parseNumber (q_maxNodes query) 50) st" "calls = c"
      by simp_all
    have "\<exists>nodes edges. respond (parseNumber (q_maxNodes query) 50) st = Json nodes edges"
      by (cases st) (simp add: respond_def Let_def)
    then obtain nodes edges where j: "resp = Json nodes edges"
      using r(1) by blast
    from dc Inr r(2) have ok: "\<forall>x\<in>set calls. \<not> isl (store (fst x) (snd x))" by simp
    then have "\<forall>x\<in>set (butlast calls). \<not> isl (store (fst x) (snd x))"
      by (auto dest: in_set_butlastD)
    with ok show ?thesis
      unfolding j by auto
  qed
qed

text \<open>
  Claim C8 fails on the code for a seed id that names a property of
  \<^verbatim>\<open>Object.prototype\<close>: \<open>constructor\<close> is in no cache, yet \<^verbatim>\<open>pages[seedPageId]\<close>
  is truthy, the guard of line 91 is passed and the response is the generic error with
  status 500. For every other absent seed id the response is the one with status 404
  and no search call is made (lemma \<open>GET_missing_seed\<close>).
\<close>

theorem C8_inherited_seed_is_500:
  "GET (ex_query (js_str ''constructor'')) [] (Inr ex_store) =
     (ErrorJson (js_str ''Cannot read properties of undefined (reading '' @ [0x27]
                 @ js_str ''slice'' @ [0x27] @ js_str '')'') 500, [])
   \<and> GET (ex_query (js_str ''constructor'')) ex_pages (Inr ex_store) =
     (ErrorJson (js_str ''Cannot read properties of undefined (reading '' @ [0x27]
                 @ js_str ''slice'' @ [0x27] @ js_str '')'') 500, [])"
  by (simp add: GET_def ex_query_def ex_pages_def getProperty_def objectPrototypeKeys_def js_str_def)

lemma GET_missing_seed:
  assumes "q_seedPageId query = Some seedPageId" and "seedPageId \<noteq> []"
      and "getProperty pages seedPageId = Missing"
  shows "GET query pages getPineconeStore =
           (ErrorJson (js_str ''seedPageId not found in vector cache'') 404, [])"
  using assms by (simp add: GET_def Let_def)

lemma discover_maxSeeds:
  "discover store pages seed m1 topK' threshold = discover store pages seed m2 topK' threshold"
  by (simp add: discover_def Let_def)

lemma expandSeed_queries:
  assumes "expandSeed store pages seed topK' threshold qs st calls = (res, calls')"
  shows "set calls' \<subseteq> set calls \<union> (\<lambda>q. (Some q, topK')) ` set qs"
  using assms
proof (induction qs arbitrary: st calls)
  case Nil
  then show ?case by simp
next
  case (Cons q qs)
  show ?case
  proof (cases "store (Some q) topK'")
    case (Inl message)
    with Cons.prems show ?thesis by auto
  next
    case (Inr results)
    with Cons.prems
    have "expandSeed store pages seed topK' threshold qs
            (fold (seedNeighbor pages seed threshold) results st) (calls @ [(Some q, topK')]) = (res, calls')"
      by simp
    from Cons.IH [OF this] show ?thesis by auto
  qed
qed

lemma connectNeighbors_queries:
  assumes "connectNeighbors store pages nodeMap topK' threshold ids pageEdges calls = (res, calls')"
  shows "set calls' \<subseteq> set calls \<union>
       {c. \<exists>i. getProperty pages i \<noteq> Missing
              \<and> fst c = (case getProperty pages i of Own entry \<Rightarrow> Some (v_pageTitle entry) | _ \<Rightarrow> None)
              \<and> snd c = max 3 (of_int \<lfloor>topK' / 2\<rfloor>)}"
proof -
  define S where "S = {c :: jsstring option \<times> real. \<exists>i. getProperty pages i \<noteq> Missing
              \<and> fst c = (case getProperty pages i of Own entry \<Rightarrow> Some (v_pageTitle entry) | _ \<Rightarrow> None)
              \<and> snd c = max 3 (of_int \<lfloor>topK' / 2\<rfloor>)}"
  have "set calls' \<subseteq> set calls \<union> S"
    using assms
  proof (induction ids arbitrary: pageEdges calls)
    case Nil
    then show ?case by simp
  next
    case (Cons neighborId ids)
    show ?case
    proof (cases "getProperty pages neighborId = Missing")
      case True
      with Cons.prems
      have "connectNeighbors store pages nodeMap topK' threshold ids pageEdges calls = (res, calls')"
        by simp
      from Cons.IH [OF this] show ?thesis .
    next
      case False
      let ?q = "case getProperty pages neighborId of
                  Own entry \<Rightarrow> Some (v_pageTitle entry) | _ \<Rightarrow> None"
      let ?k = "max 3 (of_int \<lfloor>topK' / 2\<rfloor>) :: real"
      have unfold: "connectNeighbors store pages nodeMap topK' threshold (neighborId # ids) pageEdges calls =
          (case store ?q ?k of
             Inl message \<Rightarrow> (Inl message, calls @ [(?q, ?k)])
           | Inr results \<Rightarrow>
               connectNeighbors store pages nodeMap topK' threshold ids
                 (fold (neighborEdge nodeMap threshold neighborId) results pageEdges)
                 (calls @ [(?q, ?k)]))"
        using False by (cases "getProperty pages neighborId") (simp_all add: Let_def split: sum.splits)
      have "\<exists>i. getProperty pages i \<noteq> Missing
              \<and> fst (?q, ?k) = (case getProperty pages i of Own entry \<Rightarrow> Some (v_pageTitle entry) | _ \<Rightarrow> None)
              \<and> snd (?q, ?k) = max 3 (of_int \<lfloor>topK' / 2\<rfloor>)"
        using False by (intro exI [of _ neighborId]) simp
      then have mem: "(?q, ?k) \<in> S"
        unfolding S_def by (rule CollectI)
      show ?thesis
      proof (cases "store ?q ?k")
        case (Inl message)
        with Cons.prems unfold have "calls' = calls @ [(?q, ?k)]" by simp
        with mem show ?thesis by auto
      next
        case (Inr results)
        with Cons.prems unfold
        have "connectNeighbors store pages nodeMap topK' threshold ids
                (fold (neighborEdge nodeMap threshold neighborId) results pageEdges)
                (calls @ [(?q, ?k)]) = (res, calls')"
          by simp
        from Cons.IH [OF this] mem show ?thesis by auto
      qed
    qed
  qed
  then show ?thesis
    unfolding S_def .
qed

lemma discover_queries:
  assumes "discover store pages seed maxSeeds topK' threshold = (res, calls)" and "c \<in> set calls"
  shows "(snd c = topK' \<and> (fst c = Some (v_pageTitle seed)
            \<or> fst c = Some (v_pageTitle seed @ [0x20] @ the (v_spaceKey seed))))
       \<or> (snd c = max 3 (of_int \<lfloor>topK' / 2\<rfloor>)
            \<and> (\<exists>i. getProperty pages i \<noteq> Missing
                 \<and> fst c = (case getProperty pages i of Own entry \<Rightarrow> Some (v_pageTitle entry)
                                | _ \<Rightarrow> None)))"
proof -
  let ?qs = "[v_pageTitle seed,
             if truthy (v_spaceKey seed) then v_pageTitle seed @ [0x20] @ the (v_spaceKey seed)
             else v_pageTitle seed]"
  obtain r1 c1 where e: "expandSeed store pages seed topK' threshold ?qs
      ([], [(v_pageId seed, Node (pageNode seed))]) [] = (r1, c1)"
    by (cases "expandSeed store pages seed topK' threshold ?qs
      ([], [(v_pageId seed, Node (pageNode seed))]) []")
  from expandSeed_queries [OF e]
  have c1: "set c1 \<subseteq> (\<lambda>q. (Some q, topK')) ` set ?qs" by simp
  have first: ?thesis if "c \<in> set c1"
    using that c1 by (auto split: if_splits)
  show ?thesis
  proof (cases r1)
    case (Inl message)
    with assms(1) e have "calls = c1" by (simp add: discover_def Let_def)
    with assms(2) first show ?thesis by simp
  next
    case (Inr st)
    obtain pageEdges nodeMap where st: "st = (pageEdges, nodeMap)" by (cases st)
    let ?ids = "take 10 (filter (\<lambda>i. i \<noteq> v_pageId seed) (map fst nodeMap))"
    obtain r2 c2 where cn: "connectNeighbors store pages nodeMap topK' threshold ?ids pageEdges c1 = (r2, c2)"
      by (cases "connectNeighbors store pages nodeMap topK' threshold ?ids pageEdges c1")
    have "calls = c2"
      using assms(1) e Inr st cn by (simp add: discover_def Let_def split: sum.splits)
    with assms(2) connectNeighbors_queries [OF cn]
    consider "c \<in> set c1"
      | "\<exists>i. getProperty pages i \<noteq> Missing
              \<and> fst c = (case getProperty pages i of Own entry \<Rightarrow> Some (v_pageTitle entry) | _ \<Rightarrow> None)
              \<and> snd c = max 3 (of_int \<lfloor>topK' / 2\<rfloor>)"
      by auto
    then show ?thesis
    proof cases
      case 1
      then show ?thesis by (rule first)
    next
      case 2
      then show ?thesis by blast
    qed
  qed
qed

text \<open>
  Claim C10. Two requests that differ in \<open>maxSeeds\<close> only get the same response and
  make the same search calls: \<open>seedChunkIds\<close> is not read. In a seeded build every query
  issued is the title of the seed page, that title followed by a space and the space key,
  or the \<^verbatim>\<open>pageTitle\<close> of the property of \<open>pages\<close> that a neighbour id names.
\<close>

theorem C10_maxSeeds_irrelevant:
  "GET (query\<lparr>q_maxSeeds := m1\<rparr>) pages getPineconeStore =
   GET (query\<lparr>q_maxSeeds := m2\<rparr>) pages getPineconeStore
   \<and> (\<forall>seedPageId seed c.
         q_seedPageId query = Some seedPageId \<and> seedPageId \<noteq> []
         \<and> getProperty pages seedPageId = Own seed
         \<and> c \<in> set (snd (GET (query\<lparr>q_maxSeeds := m1\<rparr>) pages getPineconeStore)) \<longrightarrow>
         fst c = Some (v_pageTitle seed)
         \<or> fst c = Some (v_pageTitle seed @ [0x20] @ the (v_spaceKey seed))
         \<or> (\<exists>i. getProperty pages i \<noteq> Missing
               \<and> fst c = (case getProperty pages i of Own entry \<Rightarrow> Some (v_pageTitle entry)
                              | _ \<Rightarrow> None)))"
proof (intro conjI allI impI)
  show "GET (query\<lparr>q_maxSeeds := m1\<rparr>) pages getPineconeStore =
        GET (query\<lparr>q_maxSeeds := m2\<rparr>) pages getPineconeStore"
    by (simp add: GET_def Let_def discover_maxSeeds [of _ _ _ "parseNumber m1 5" _ _ "parseNumber m2 5"]
        split: property.splits sum.splits)
next
  fix seedPageId seed c
  let ?query = "query\<lparr>q_maxSeeds := m1\<rparr>"
  assume a: "q_seedPageId query = Some seedPageId \<and> seedPageId \<noteq> []
         \<and> getProperty pages seedPageId = Own seed
         \<and> c \<in> set (snd (GET ?query pages getPineconeStore))"
  show "fst c = Some (v_pageTitle seed)
         \<or> fst c = Some (v_pageTitle seed @ [0x20] @ the (v_spaceKey seed))
         \<or> (\<exists>i. getProperty pages i \<noteq> Missing
               \<and> fst c = (case getProperty pages i of Own entry \<Rightarrow> Some (v_pageTitle entry)
                              | _ \<Rightarrow> None))"
  proof (cases getPineconeStore)
    case (Inl message)
    with a have "snd (GET ?query pages getPineconeStore) = []"
      by (simp add: GET_def Let_def)
    with a show ?thesis by simp
  next
    case (Inr store)
    let ?d = "discover store pages seed (parseNumber (q_maxSeeds ?query) 5)
              (parseNumber (q_topK ?query) 5) (parseFloatInRange (q_threshold ?query) 0.25 0 1)"
    obtain res calls where d: "?d = (res, calls)" by (cases ?d)
    have "snd (GET ?query pages getPineconeStore) = calls"
      using a Inr d by (simp add: GET_def Let_def split: sum.splits)
    with a have "c \<in> set calls" by simp
    from discover_queries [OF d this] show ?thesis by blast
  qed
qed

subsection \<open>The graph route: the response\<close>

lemma map_of_countEdge:
  "map_of (countEdge e degree) k =
     (if Some (source e) = k \<or> target e = k
      then Some (getOr degree k 0 + (if Some (source e) = k then 1 else 0)
                 + (if target e = k then 1 else 0))
      else map_of degree k)"
  by (auto simp: countEdge_def Let_def map_of_map_set getOr_map_set getOr_def)

lemma map_of_fold_countEdge:
  "map_of (fold countEdge edges degree) k =
     (if length (filter (\<lambda>e. Some (source e) = k) edges) + length (filter (\<lambda>e. target e = k) edges) = 0
      then map_of degree k
      else Some (getOr degree k 0 + length (filter (\<lambda>e. Some (source e) = k) edges)
                 + length (filter (\<lambda>e. target e = k) edges)))"
proof (induction edges arbitrary: degree)
  case Nil
  then show ?case by simp
next
  case (Cons e edges)
  have "getOr (countEdge e degree) k 0 =
      getOr degree k 0 + (if Some (source e) = k then 1 else 0) + (if target e = k then 1 else 0)"
    by (simp add: getOr_def map_of_countEdge)
  then show ?case
    by (auto simp: Cons.IH map_of_countEdge)
qed

lemma degree_or_1:
  "getOr (fold countEdge edges []) (Some i) 1 =
     (let d = length (filter (\<lambda>e. source e = i) edges) + length (filter (\<lambda>e. target e = Some i) edges)
      in if d = 0 then 1 else d)"
  by (simp add: getOr_def map_of_fold_countEdge Let_def)

lemma resize_cases:
  "resize (fold countEdge edges []) node =
     (case node of
        NonEntryNode \<Rightarrow> NonEntryNode
      | Node n \<Rightarrow>
          (let d = length (filter (\<lambda>e. source e = n_id n) edges)
                   + length (filter (\<lambda>e. target e = Some (n_id n)) edges)
           in Node (n\<lparr>n_size := min 18 (max 6 (real (if d = 0 then 1 else d)
                                             + log 10 (real (n_chunkCount n) + 1) * 2))\<rparr>)))"
  by (cases node) (simp_all add: degree_or_1 [unfolded One_nat_def] Let_def)

lemma sorted_desc_sort_key:
  "sorted_wrt (\<lambda>a b. weight b \<le> weight a) (sort_key (\<lambda>e. - weight e) es)"
proof -
  have "sorted (map (\<lambda>e. - weight e) (sort_key (\<lambda>e. - weight e) es))"
    by (rule sorted_sort_key)
  then show ?thesis
    by (simp add: sorted_map)
qed

lemma sorted_wrt_take: "sorted_wrt P xs \<Longrightarrow> sorted_wrt P (take n xs)"
  by (metis append_take_drop_id sorted_wrt_append)

text \<open>
  Claim C5, as amended. For a seeded build that returns a graph: the nodes are the first
  \<open>\<lfloor>maxNodes\<rfloor>\<close> discovered nodes; the edges are the entries of the edge map whose two
  ends are ids of those nodes, in descending order of weight, at most
  \<open>max 20 (maxNodes * 2)\<close> of them; and every returned node that was made from a cache
  entry has size \<open>min 18 (max 6 (d + log10 (chunkCount + 1) * 2))\<close>, where \<open>d\<close> is the
  number of returned edges at the node, or 1 when there is none.
\<close>

theorem C5_response_order_and_sizes:
  assumes "q_seedPageId query = Some seedPageId" and "seedPageId \<noteq> []"
      and "getProperty pages seedPageId = Own seed"
      and "GET query pages (Inr store) = (Json nodes edges, calls)"
  shows "\<exists>pageEdges nodeMap.
      discover store pages seed (parseNumber (q_maxSeeds query) 5) (parseNumber (q_topK query) 5)
        (parseFloatInRange (q_threshold query) 0.25 0 1) = (Inr (pageEdges, nodeMap), calls)
    \<and> (let maxNodes = parseNumber (q_maxNodes query) 50;
            limitedNodes = take (nat \<lfloor>maxNodes\<rfloor>) (map snd nodeMap);
            allowed = set (map node_id limitedNodes)
        in edges = take (nat \<lfloor>max 20 (maxNodes * 2)\<rfloor>)
                     (sort_key (\<lambda>e. - weight e)
                        (filter (\<lambda>e. Some (source e) \<in> allowed \<and> target e \<in> allowed)
                           (map entryEdge pageEdges)))
         \<and> (\<forall>e\<in>set edges. Some (source e) \<in> allowed \<and> target e \<in> allowed)
         \<and> sorted_wrt (\<lambda>a b. weight b \<le> weight a) edges
         \<and> real (length edges) \<le> max 20 (maxNodes * 2)
         \<and> length nodes = length limitedNodes
         \<and> (\<forall>i<length nodes.
               case limitedNodes ! i of
                 NonEntryNode \<Rightarrow> nodes ! i = NonEntryNode
               | Node n \<Rightarrow>
                   (let d = length (filter (\<lambda>e. source e = n_id n) edges)
                            + length (filter (\<lambda>e. target e = Some (n_id n)) edges)
                    in nodes ! i =
                         Node (n\<lparr>n_size := min 18 (max 6 (real (if d = 0 then 1 else d)
                                                          + log 10 (real (n_chunkCount n) + 1) * 2))\<rparr>))))"
proof -
  let ?maxNodes = "parseNumber (q_maxNodes query) 50"
  let ?d = "discover store pages seed (parseNumber (q_maxSeeds query) 5)
              (parseNumber (q_topK query) 5) (parseFloatInRange (q_threshold query) 0.25 0 1)"
  obtain res c where d: "?d = (res, c)" by (cases ?d)
  have get: "GET query pages (Inr store) =
      (case res of Inl message \<Rightarrow> (ErrorJson message 500, c)
       | Inr st \<Rightarrow> (respond ?maxNodes st, c))"
    using assms(1-3) d by (simp add: GET_def Let_def)
  from get assms(4) obtain st where res: "res = Inr st"
    and resp: "respond ?maxNodes st = Json nodes edges" and c: "c = calls"
    by (cases res) simp_all
  obtain pageEdges nodeMap where st: "st = (pageEdges, nodeMap)" by (cases st)
  let ?limited = "take (nat \<lfloor>?maxNodes\<rfloor>) (map snd nodeMap)"
  let ?allowed = "set (map node_id ?limited)"
  let ?filtered = "filter (\<lambda>e. Some (source e) \<in> ?allowed \<and> target e \<in> ?allowed)
                     (map entryEdge pageEdges)"
  let ?cap = "nat \<lfloor>max 20 (?maxNodes * 2)\<rfloor>"
  let ?E = "take ?cap (sort_key (\<lambda>e. - weight e) ?filtered)"
  have "respond ?maxNodes (pageEdges, nodeMap) = Json (map (resize (fold countEdge ?E [])) ?limited) ?E"
    by (simp add: respond_def Let_def)
  then have "Json (map (resize (fold countEdge ?E [])) ?limited) ?E = Json nodes edges"
    using resp unfolding st by (rule trans [OF sym])
  then have "map (resize (fold countEdge ?E [])) ?limited = nodes \<and> ?E = edges"
    by (rule response.inject [THEN iffD1])
  then have n1: "map (resize (fold countEdge ?E [])) ?limited = nodes" and e1: "?E = edges"
    by (rule conjunct1, rule conjunct2)
  have edges: "edges = ?E"
    using e1 by (rule sym)
  have nodes: "nodes = map (resize (fold countEdge edges [])) ?limited"
    using n1 unfolding e1 by (rule sym)
  have "set edges \<subseteq> set (sort_key (\<lambda>e. - weight e) ?filtered)"
    unfolding edges by (rule set_take_subset)
  then have mem: "\<forall>e\<in>set edges. Some (source e) \<in> ?allowed \<and> target e \<in> ?allowed"
    by auto
  have sorted: "sorted_wrt (\<lambda>a b. weight b \<le> weight a) edges"
    unfolding edges by (rule sorted_wrt_take) (rule sorted_desc_sort_key)
  have "length edges \<le> ?cap"
    unfolding edges by simp
  then have "real (length edges) \<le> real ?cap"
    by (simp only: of_nat_le_iff)
  also have "real ?cap = of_int \<lfloor>max 20 (?maxNodes * 2)\<rfloor>"
    by (simp add: le_max_iff_disj)
  also have "\<dots> \<le> max 20 (?maxNodes * 2)"
    by (rule of_int_floor_le)
  finally have cap: "real (length edges) \<le> max 20 (?maxNodes * 2)" .
  have len: "length nodes = length ?limited"
    by (simp add: nodes)
  have sizes: "\<forall>i<length nodes.
               case ?limited ! i of
                 NonEntryNode \<Rightarrow> nodes ! i = NonEntryNode
               | Node n \<Rightarrow>
                   (let d = length (filter (\<lambda>e. source e = n_id n) edges)
                            + length (filter (\<lambda>e. target e = Some (n_id n)) edges)
                    in nodes ! i =
                         Node (n\<lparr>n_size := min 18 (max 6 (real (if d = 0 then 1 else d)
                                                          + log 10 (real (n_chunkCount n) + 1) * 2))\<rparr>))"
  proof (intro allI impI)
    fix i assume "i < length nodes"
    then have i: "i < length ?limited" using len by simp
    then have "nodes ! i = resize (fold countEdge edges []) (?limited ! i)"
      unfolding nodes by (rule nth_map)
    then show "(case ?limited ! i of
                 NonEntryNode \<Rightarrow> nodes ! i = NonEntryNode
               | Node n \<Rightarrow>
                   (let d = length (filter (\<lambda>e. source e = n_id n) edges)
                            + length (filter (\<lambda>e. target e = Some (n_id n)) edges)
                    in nodes ! i =
                         Node (n\<lparr>n_size := min 18 (max 6 (real (if d = 0 then 1 else d)
                                                          + log 10 (real (n_chunkCount n) + 1) * 2))\<rparr>)))"
      by (cases "?limited ! i") (simp_all add: resize_cases Let_def del: resize.simps)
  qed
  have disc: "?d = (Inr (pageEdges, nodeMap), calls)"
    using d res st c by simp
  show ?thesis
    unfolding Let_def
    using disc edges mem sorted cap len sizes [unfolded Let_def] by blast
qed

subsection \<open>The graph route on the example cache\<close>

lemma ex_params:
  "parseNumber (q_maxSeeds (ex_query s)) 5 = 5" "parseNumber (q_topK (ex_query s)) 5 = 5"
  "parseFloatInRange (q_threshold (ex_query s)) 0.25 0 1 = 0.25"
  "parseNumber (q_maxNodes (ex_query s)) 50 = 50" "q_seedPageId (ex_query s) = Some s"
  by (simp_all add: ex_query_def parseNumber_def parseFloatInRange_def)

lemma ex_seed: "getProperty ex_pages (js_str ''A'') = Own ex_pageA" "js_str ''A'' \<noteq> []"
  by (simp_all add: getProperty_def ex_pages_def js_str_def)

lemma ex_discover:
  "discover ex_store ex_pages ex_pageA 5 5 0.25 =
     (Inr ([(js_str ''A|B'', 0.9)],
           [(js_str ''A'', Node (pageNode ex_pageA)), (js_str ''B'', Node (pageNode ex_pageB))]),
      [(Some (js_str ''Alpha''), 5), (Some (js_str ''Alpha DOC''), 5), (Some (js_str ''Beta''), 3)])"
  by (simp add: ex_graph_defs graph_eval)

lemma ex_discover_empty:
  "discover ex_store_empty ex_pages ex_pageA 5 5 0.25 =
     (Inr ([], [(js_str ''A'', Node (pageNode ex_pageA))]),
      [(Some (js_str ''Alpha''), 5), (Some (js_str ''Alpha DOC''), 5)])"
  by (simp add: ex_graph_defs graph_eval)

lemma ex_GET:
  "GET (ex_query (js_str ''A'')) ex_pages (Inr store) =
     (case discover store ex_pages ex_pageA 5 5 0.25 of
        (Inl message, calls) \<Rightarrow> (ErrorJson message 500, calls)
      | (Inr st, calls) \<Rightarrow> (respond 50 st, calls))"
  unfolding GET_def Let_def ex_params by (simp add: ex_seed)

lemma log10_1000: "log 10 (1000::real) = 3"
proof -
  have e: "(1000::real) = 10 ^ 3" by simp
  have "log 10 ((10::real) ^ 3) = real 3"
    by (rule log_pow_cancel) simp_all
  then show ?thesis
    unfolding e by simp
qed

lemma ex_respond_empty:
  "respond 50 ([], [(js_str ''A'', Node (pageNode ex_pageA))]) =
     Json [Node ((pageNode ex_pageA)\<lparr>n_size := 7\<rparr>)] []"
  by (simp add: respond_def Let_def getOr_def pageNode_def ex_pageA_def log10_1000)

lemma ex_respond_edges:
  "\<exists>nodes. respond 50 ([(js_str ''A|B'', 0.9)],
        [(js_str ''A'', Node (pageNode ex_pageA)), (js_str ''B'', Node (pageNode ex_pageB))]) =
     Json nodes [\<lparr>source = js_str ''A'', target = Some (js_str ''B''), weight = 0.9\<rparr>]"
  by (simp add: respond_def Let_def entryEdge_def js_str_def pageNode_def ex_pageA_def ex_pageB_def)

lemma ex_GET_empty:
  "GET (ex_query (js_str ''A'')) ex_pages (Inr ex_store_empty) =
     (Json [Node ((pageNode ex_pageA)\<lparr>n_size := 7\<rparr>)] [],
      [(Some (js_str ''Alpha''), 5), (Some (js_str ''Alpha DOC''), 5)])"
  unfolding ex_GET ex_discover_empty by (simp add: ex_respond_empty)

lemma ex_GET_edges:
  "\<exists>nodes. GET (ex_query (js_str ''A'')) ex_pages (Inr ex_store) =
     (Json nodes [\<lparr>source = js_str ''A'', target = Some (js_str ''B''), weight = 0.9\<rparr>],
      [(Some (js_str ''Alpha''), 5), (Some (js_str ''Alpha DOC''), 5), (Some (js_str ''Beta''), 3)])"
  unfolding ex_GET ex_discover using ex_respond_edges by simp

text \<open>
  Against claim C5 as stated: a seed page of 999 chunks that no search result touches is
  returned with size 7, that is with 1 in the place of its degree; with degree 0 the
  formula of the claim gives 6.
\<close>

theorem C5_isolated_node_counterexample:
  "\<exists>n calls. GET (ex_query (js_str ''A'')) ex_pages (Inr ex_store_empty) = (Json [Node n] [], calls)
     \<and> n_chunkCount n = 999 \<and> n_size n = 7
     \<and> min 18 (max 6 (0 + log 10 (real (n_chunkCount n) + 1) * 2)) = (6::real)"
proof -
  let ?n = "(pageNode ex_pageA)\<lparr>n_size := 7\<rparr>"
  have "n_chunkCount ?n = 999" "n_size ?n = 7"
    by (simp_all add: pageNode_def ex_pageA_def)
  moreover have "min 18 (max 6 (0 + log 10 (real (n_chunkCount ?n) + 1) * 2)) = (6::real)"
    by (simp add: pageNode_def ex_pageA_def log10_1000)
  ultimately show ?thesis
    using ex_GET_empty by blast
qed

theorem C5_response_order_and_sizes_witness:
  "\<exists>nodes edges calls.
      GET (ex_query (js_str ''A'')) ex_pages (Inr ex_store) = (Json nodes edges, calls)
    \<and> length nodes = 2 \<and> real (length edges) \<le> 100
    \<and> sorted_wrt (\<lambda>a b. weight b \<le> weight a) edges"
proof -
  from ex_GET_edges obtain nodes where g: "GET (ex_query (js_str ''A'')) ex_pages (Inr ex_store) =
      (Json nodes [\<lparr>source = js_str ''A'', target = Some (js_str ''B''), weight = 0.9\<rparr>],
       [(Some (js_str ''Alpha''), 5), (Some (js_str ''Alpha DOC''), 5), (Some (js_str ''Beta''), 3)])"
    by blast
  from C5_response_order_and_sizes [OF ex_params(5) ex_seed(2) ex_seed(1) g]
  have "length nodes = 2"
    "real (length [\<lparr>source = js_str ''A'', target = Some (js_str ''B''), weight = 0.9\<rparr>]) \<le> 100"
    "sorted_wrt (\<lambda>a b. weight b \<le> weight a)
       [\<lparr>source = js_str ''A'', target = Some (js_str ''B''), weight = 0.9\<rparr>]"
    unfolding ex_params ex_discover Let_def by auto
  with g show ?thesis by blast
qed

theorem C6_failed_probe_fails_request_witness:
  "GET (ex_query (js_str ''A'')) ex_pages (Inr ex_store_failing) =
     (ErrorJson (js_str ''upstream timeout'') 500,
      [(Some (js_str ''Alpha''), 5), (Some (js_str ''Alpha DOC''), 5)])
   \<and> ex_store_failing (Some (js_str ''Alpha DOC'')) 5 = Inl (js_str ''upstream timeout'')
   \<and> \<not> isl (ex_store_failing (Some (js_str ''Alpha'')) 5)"
  using C6_failed_probe_fails_request [OF ex_params(5) ex_seed(2) ex_seed(1) ex_GET_failing]
  by (simp add: ex_GET_failing)

lemma ex_hit_fields: "c_pageId (chunk (ex_hit p s)) = p" "scoreOr0 (ex_hit p s) = s"
  by (simp_all add: ex_hit_def ex_chunk_def scoreOr0_def)

lemma ex_key: "edgeKey (js_str ''A'') (js_str ''B'') = js_str ''A|B''"
  "edgeKey (js_str ''B'') (js_str ''A'') = js_str ''A|B''"
  by (simp_all add: edgeKey_def js_str_def)

lemma ex_back_queries:
  "ex_store_back (Some (v_pageTitle ex_pageA)) 5 = Inr [ex_hit (js_str ''B'') 0.5]"
  "ex_store_back (Some (if truthy (v_spaceKey ex_pageA)
                        then v_pageTitle ex_pageA @ [0x20] @ the (v_spaceKey ex_pageA)
                        else v_pageTitle ex_pageA)) 5 = Inr [ex_hit (js_str ''B'') 0.4]"
  "getProperty ex_pages (js_str ''B'') = Own ex_pageB"
  "ex_store_back (Some (v_pageTitle ex_pageB)) (max 3 (of_int \<lfloor>5 / 2 :: real\<rfloor>)) =
     Inr [ex_hit (js_str ''A'') 0.3]"
  by (simp_all add: ex_store_back_def ex_pageA_def ex_pageB_def ex_pages_def getProperty_def js_str_def)

lemma ex_back_request:
  "q_seedPageId (ex_query (js_str ''A'')) = Some (v_pageId ex_pageA) \<and> v_pageId ex_pageA \<noteq> []
   \<and> getProperty ex_pages (v_pageId ex_pageA) = Own ex_pageA
   \<and> parseNumber (q_topK (ex_query (js_str ''A''))) 5 = 5
   \<and> parseFloatInRange (q_threshold (ex_query (js_str ''A''))) 0.25 0 1 = 0.25
   \<and> 2 \<le> parseNumber (q_maxNodes (ex_query (js_str ''A''))) 50
   \<and> 0x7C \<notin> set (v_pageId ex_pageA) \<and> 0x7C \<notin> set (js_str ''B'') \<and> v_pageId ex_pageB = js_str ''B''"
  unfolding ex_params
  by (simp add: ex_pageA_def ex_pageB_def ex_pages_def getProperty_def js_str_def)

lemma ex_min_max: "min (js_str ''A'') (js_str ''B'') = js_str ''A''"
  "max (js_str ''A'') (js_str ''B'') = js_str ''B''"
  by (simp_all add: min_def max_def js_str_def)

theorem C4_edge_keys_canonical_witness:
  "edgeKey (js_str ''B'') (js_str ''A'') = js_str ''A|B''
   \<and> (\<exists>nodeMap'.
        fold (seedNeighbor ex_pages ex_pageA 0.25) [ex_hit (js_str ''B'') 0.5, ex_hit (js_str ''B'') 0.4]
          ([], [(js_str ''A'', Node (pageNode ex_pageA))]) = ([(js_str ''A|B'', 0.9)], nodeMap')
      \<and> fold (neighborEdge nodeMap' 0.25 (js_str ''B'')) [ex_hit (js_str ''A'') 0.3]
          [(js_str ''A|B'', 0.9)] = [(js_str ''A|B'', 1.05)])
   \<and> discover ex_store_back ex_pages ex_pageA 5 5 0.25 =
        (Inr ([(js_str ''A|B'', 1.05)],
              [(js_str ''A'', Node (pageNode ex_pageA)), (js_str ''B'', Node (pageNode ex_pageB))]),
         [(Some (js_str ''Alpha''), 5), (Some (js_str ''Alpha DOC''), 5), (Some (js_str ''Beta''), 3)])
   \<and> (\<exists>nodes calls. GET (ex_query (js_str ''A'')) ex_pages (Inr ex_store_back) =
        (Json nodes [\<lparr>source = js_str ''A'', target = Some (js_str ''B''), weight = 1.05\<rparr>], calls))"
proof -
  have a: "v_pageId ex_pageA = js_str ''A''"
    by (simp add: ex_pageA_def)
  have ne: "js_str ''B'' \<noteq> v_pageId ex_pageA"
    by (simp add: a js_str_def)
  have h: "has [(js_str ''A'', Node (pageNode ex_pageA))] (v_pageId ex_pageA)"
    by (simp add: has_def a)
  have p3: "c_pageId (chunk (ex_hit (js_str ''A'') 0.3)) = v_pageId ex_pageA"
    by (simp add: ex_hit_fields a)
  have t: "0.25 \<le> scoreOr0 (ex_hit (js_str ''B'') 0.5)" "0.25 \<le> scoreOr0 (ex_hit (js_str ''B'') 0.4)"
    "0.25 \<le> scoreOr0 (ex_hit (js_str ''A'') 0.3)"
    by (simp_all add: ex_hit_fields)
  have w: "scoreOr0 (ex_hit (js_str ''B'') 0.5) + scoreOr0 (ex_hit (js_str ''B'') 0.4)
      + scoreOr0 (ex_hit (js_str ''A'') 0.3) * 0.5 = 1.05"
    by (simp add: ex_hit_fields)
  have q2: "(if truthy (v_spaceKey ex_pageA) then v_pageTitle ex_pageA @ [0x20] @ the (v_spaceKey ex_pageA)
      else v_pageTitle ex_pageA) = js_str ''Alpha DOC''"
    by (simp add: ex_pageA_def js_str_def)
  have titles: "v_pageTitle ex_pageA = js_str ''Alpha''" "v_pageTitle ex_pageB = js_str ''Beta''"
    "max 3 (of_int \<lfloor>5 / 2 :: real\<rfloor>) = (3::real)"
    by (simp_all add: ex_pageA_def ex_pageB_def)
  note inst = C4_edge_keys_canonical [OF ex_hit_fields(1) ex_hit_fields(1) p3 ne t h, of ex_pages]
  have "\<exists>nodeMap'.
            fold (seedNeighbor ex_pages ex_pageA 0.25) [ex_hit (js_str ''B'') 0.5, ex_hit (js_str ''B'') 0.4]
              ([], [(js_str ''A'', Node (pageNode ex_pageA))]) =
              ([(edgeKey (v_pageId ex_pageA) (js_str ''B''),
                 scoreOr0 (ex_hit (js_str ''B'') 0.5) + scoreOr0 (ex_hit (js_str ''B'') 0.4))], nodeMap')
          \<and> has nodeMap' (v_pageId ex_pageA)
          \<and> fold (neighborEdge nodeMap' 0.25 (js_str ''B'')) [ex_hit (js_str ''A'') 0.3]
               [(edgeKey (v_pageId ex_pageA) (js_str ''B''),
                 scoreOr0 (ex_hit (js_str ''B'') 0.5) + scoreOr0 (ex_hit (js_str ''B'') 0.4))] =
              [(edgeKey (v_pageId ex_pageA) (js_str ''B''),
                scoreOr0 (ex_hit (js_str ''B'') 0.5) + scoreOr0 (ex_hit (js_str ''B'') 0.4)
                + scoreOr0 (ex_hit (js_str ''A'') 0.3) * 0.5)]"
    by (rule inst [THEN conjunct2, THEN conjunct2, THEN conjunct1])
  then have hops: "\<exists>nodeMap'.
        fold (seedNeighbor ex_pages ex_pageA 0.25) [ex_hit (js_str ''B'') 0.5, ex_hit (js_str ''B'') 0.4]
          ([], [(js_str ''A'', Node (pageNode ex_pageA))]) = ([(js_str ''A|B'', 0.9)], nodeMap')
      \<and> fold (neighborEdge nodeMap' 0.25 (js_str ''B'')) [ex_hit (js_str ''A'') 0.3]
          [(js_str ''A|B'', 0.9)] = [(js_str ''A|B'', 1.05)]"
    by (auto simp: ex_hit_fields a ex_key)
  note whole = inst [THEN conjunct2, THEN conjunct2, THEN conjunct2, THEN conjunct2,
      THEN spec, THEN spec, THEN spec, THEN spec, THEN mp,
      OF conjI [OF ex_back_queries(1) conjI [OF ex_back_queries(2)
           conjI [OF ex_back_queries(3) ex_back_queries(4)]]], of 5]
  have build: "discover ex_store_back ex_pages ex_pageA 5 5 0.25 =
        (Inr ([(js_str ''A|B'', 1.05)],
              [(js_str ''A'', Node (pageNode ex_pageA)), (js_str ''B'', Node (pageNode ex_pageB))]),
         [(Some (js_str ''Alpha''), 5), (Some (js_str ''Alpha DOC''), 5), (Some (js_str ''Beta''), 3)])"
    using whole [THEN conjunct1, unfolded q2, unfolded w titles a ex_key] by simp
  have route: "\<exists>nodes calls. GET (ex_query (js_str ''A'')) ex_pages (Inr ex_store_back) =
        (Json nodes [\<lparr>source = js_str ''A'', target = Some (js_str ''B''), weight = 1.05\<rparr>], calls)"
    using whole [THEN conjunct2, THEN spec, THEN mp, OF ex_back_request]
    unfolding w a ex_min_max by simp
  from ex_key(2) hops build route show ?thesis
    by (intro conjI)
qed

theorem C10_maxSeeds_irrelevant_witness:
  "GET ((ex_query (js_str ''A''))\<lparr>q_maxSeeds := Some (Finite 1)\<rparr>) ex_pages (Inr ex_store) =
   GET ((ex_query (js_str ''A''))\<lparr>q_maxSeeds := Some (Finite 7)\<rparr>) ex_pages (Inr ex_store)
   \<and> snd (GET ((ex_query (js_str ''A''))\<lparr>q_maxSeeds := Some (Finite 1)\<rparr>) ex_pages (Inr ex_store)) =
       [(Some (js_str ''Alpha''), 5), (Some (js_str ''Alpha DOC''), 5), (Some (js_str ''Beta''), 3)]"
proof -
  have same: "(ex_query (js_str ''A''))\<lparr>q_maxSeeds := None\<rparr> = ex_query (js_str ''A'')"
    by (simp add: ex_query_def)
  have "GET ((ex_query (js_str ''A''))\<lparr>q_maxSeeds := Some (Finite 1)\<rparr>) ex_pages (Inr ex_store) =
        GET ((ex_query (js_str ''A''))\<lparr>q_maxSeeds := None\<rparr>) ex_pages (Inr ex_store)"
    by (rule C10_maxSeeds_irrelevant [THEN conjunct1])
  with ex_GET_edges have "snd (GET ((ex_query (js_str ''A''))\<lparr>q_maxSeeds := Some (Finite 1)\<rparr>)
        ex_pages (Inr ex_store)) =
       [(Some (js_str ''Alpha''), 5), (Some (js_str ''Alpha DOC''), 5), (Some (js_str ''Beta''), 3)]"
    unfolding same by auto
  moreover have "GET ((ex_query (js_str ''A''))\<lparr>q_maxSeeds := Some (Finite 1)\<rparr>) ex_pages (Inr ex_store) =
      GET ((ex_query (js_str ''A''))\<lparr>q_maxSeeds := Some (Finite 7)\<rparr>) ex_pages (Inr ex_store)"
    by (rule C10_maxSeeds_irrelevant [THEN conjunct1])
  ultimately show ?thesis by simp
qed

end
